theory Spec2Isabelle
  imports Main "HOL-Library.Multiset"
begin

section \<open>ECMAScript strings and BigInt values\<close>

text \<open>
  A string is a list of characters; a character stands for a code unit in the range
  U+0000 .. U+00FF. \<open>isStrWhiteSpaceChar\<close> holds of the white space and line terminator
  code units of that range (TAB, LF, VT, FF, CR, SP, NBSP): the characters that
  \<open>String.prototype.trim\<close> strips and that \<open>BigInt(string)\<close> skips at both ends.
\<close>

definition isStrWhiteSpaceChar :: "char \<Rightarrow> bool" where
  "isStrWhiteSpaceChar c = (of_char c \<in> {9, 10, 11, 12, 13, 32, 160 :: nat})"

definition trim :: "string \<Rightarrow> string" where
  "trim s = rev (dropWhile isStrWhiteSpaceChar (rev (dropWhile isStrWhiteSpaceChar s)))"

text \<open>The value of a digit character, for radix up to 16; \<open>None\<close> for any other character.\<close>

definition digitValue :: "char \<Rightarrow> nat option" where
  "digitValue c =
     (let n = (of_char c :: nat) in
      if 48 \<le> n \<and> n \<le> 57 then Some (n - 48)
      else if 97 \<le> n \<and> n \<le> 102 then Some (n - 87)
      else if 65 \<le> n \<and> n \<le> 70 then Some (n - 55)
      else None)"

fun parseDigitsFrom :: "nat \<Rightarrow> nat \<Rightarrow> string \<Rightarrow> nat option" where
  "parseDigitsFrom radix acc [] = Some acc"
| "parseDigitsFrom radix acc (c # cs) =
     (case digitValue c of
        None \<Rightarrow> None
      | Some d \<Rightarrow> if d < radix then parseDigitsFrom radix (acc * radix + d) cs else None)"

text \<open>A digit sequence of the grammar has at least one digit.\<close>

definition parseDigits :: "nat \<Rightarrow> string \<Rightarrow> nat option" where
  "parseDigits radix cs = (if cs = [] then None else parseDigitsFrom radix 0 cs)"

text \<open>
  \<open>StringToBigInt\<close> of ECMAScript: the trimmed text is empty (the value zero), a
  hexadecimal, binary or octal literal without sign, or a decimal digit sequence with an
  optional sign. Anything else has no value (\<open>BigInt\<close> then throws a SyntaxError).
\<close>

definition StringToBigInt :: "string \<Rightarrow> int option" where
  "StringToBigInt str =
     (let s = trim str in
      if s = [] then Some 0
      else if take 2 s = ''0x'' \<or> take 2 s = ''0X'' then map_option int (parseDigits 16 (drop 2 s))
      else if take 2 s = ''0b'' \<or> take 2 s = ''0B'' then map_option int (parseDigits 2 (drop 2 s))
      else if take 2 s = ''0o'' \<or> take 2 s = ''0O'' then map_option int (parseDigits 8 (drop 2 s))
      else if hd s = CHR ''-'' then map_option (\<lambda>n. - int n) (parseDigits 10 (tl s))
      else if hd s = CHR ''+'' then map_option int (parseDigits 10 (tl s))
      else map_option int (parseDigits 10 s))"

definition digitChar :: "nat \<Rightarrow> char" where
  "digitChar d = ''0123456789'' ! d"

fun natToString :: "nat \<Rightarrow> string" where
  "natToString n =
     (if n < 10 then [digitChar n] else natToString (n div 10) @ [digitChar (n mod 10)])"

declare natToString.simps [simp del]

text \<open>\<open>BigInt.prototype.toString()\<close>: decimal digits, with a minus sign for a negative value.\<close>

definition BigInt_toString :: "int \<Rightarrow> string" where
  "BigInt_toString i = (if i < 0 then CHR ''-'' # natToString (nat (- i)) else natToString (nat i))"

text \<open>
  BigInt division truncates towards zero and the remainder takes the sign of the dividend.
  (A zero divisor raises a RangeError; the only divisor in this program is the constant
  1000000.)
\<close>

definition bigint_div :: "int \<Rightarrow> int \<Rightarrow> int" where
  "bigint_div a b = sgn a * sgn b * (\<bar>a\<bar> div \<bar>b\<bar>)"

definition bigint_rem :: "int \<Rightarrow> int \<Rightarrow> int" where
  "bigint_rem a b = sgn a * (\<bar>a\<bar> mod \<bar>b\<bar>)"

text \<open>\<open>s.padStart(n, "0")\<close>: a string of length \<open>n\<close> or more is returned as it is.\<close>

definition padStart :: "nat \<Rightarrow> char \<Rightarrow> string \<Rightarrow> string" where
  "padStart n c s = (if n \<le> length s then s else replicate (n - length s) c @ s)"

section \<open>The balance formatter (\<open>formatLovelaceToAda\<close>)\<close>

text \<open>
  The values the formatter is given: \<open>undefined\<close>, \<open>null\<close>, a string, or a BigInt.
  (Numbers are floating point and are not part of this model.)
\<close>

datatype lovelace_value = Undefined | Null | StringValue string | BigIntValue int

datatype bigint_error = SyntaxError | TypeError

text \<open>\<open>lovelaceValue || "0"\<close>: the falsy values are \<open>undefined\<close>, \<open>null\<close>, \<open>""\<close> and \<open>0n\<close>.\<close>

definition orZero :: "lovelace_value \<Rightarrow> lovelace_value" where
  "orZero v =
     (case v of
        Undefined \<Rightarrow> StringValue ''0''
      | Null \<Rightarrow> StringValue ''0''
      | StringValue s \<Rightarrow> if s = [] then StringValue ''0'' else v
      | BigIntValue i \<Rightarrow> if i = 0 then StringValue ''0'' else v)"

definition BigInt :: "lovelace_value \<Rightarrow> bigint_error + int" where
  "BigInt v =
     (case v of
        Undefined \<Rightarrow> Inl TypeError
      | Null \<Rightarrow> Inl TypeError
      | StringValue s \<Rightarrow> (case StringToBigInt s of None \<Rightarrow> Inl SyntaxError | Some i \<Rightarrow> Inr i)
      | BigIntValue i \<Rightarrow> Inr i)"

definition formatLovelaceToAda :: "lovelace_value \<Rightarrow> bigint_error + string" where
  "formatLovelaceToAda lovelaceValue =
     (case BigInt (orZero lovelaceValue) of
        Inl e \<Rightarrow> Inl e
      | Inr lovelaceBigInt \<Rightarrow>
          (let LOVELACE_PER_ADA = 1000000;
               adaIntegerPart = bigint_div lovelaceBigInt LOVELACE_PER_ADA;
               adaFractionalPart = bigint_rem lovelaceBigInt LOVELACE_PER_ADA;
               integerStr = BigInt_toString adaIntegerPart;
               fractionalStr = padStart 6 (CHR ''0'') (BigInt_toString adaFractionalPart)
           in Inr (integerStr @ ''.'' @ fractionalStr @ '' ADA'')))"

section \<open>Asynchronous functions of the wallet card\<close>

text \<open>
  A value thrown by the wallet library or by \<open>fetch\<close>. The workflow reads only
  \<open>err?.info?.message\<close> and \<open>err?.message\<close>; \<open>None\<close> is a property that is absent.
\<close>

record js_error =
  info_message :: "string option"
  err_message :: "string option"

datatype tx_step = Idle | Building | Signing | Submitting | Confirming | Success | Error

record tx_status =
  step :: tx_step
  message :: string
  txHash :: "string option"

definition initialTxStatus :: tx_status where
  "initialTxStatus = \<lparr>step = Idle, message = ''No transaction started yet.'', txHash = None\<rparr>"

record asset =
  unit :: string
  quantity :: string

text \<open>The \<open>useState\<close> cells of \<open>WalletCard\<close>.\<close>

record wallet_state =
  address :: string
  balanceLovelace :: string
  isLoadingBalance :: bool
  txStatus :: tx_status
  isTxRunning :: bool

text \<open>
  What an asynchronous function does, in order: calls of the state setters, calls of
  \<open>console.error\<close> and the fixed pause. None of the functions modelled here reads a state
  cell after it has started, so a run is the list of its effects together with the way its
  promise settles (\<open>Inl\<close>: rejected with a thrown value).
\<close>

datatype event =
    SetAddress string
  | SetBalanceLovelace string
  | SetIsLoadingBalance bool
  | SetTxStatus tx_status
  | SetIsTxRunning bool
  | ConsoleError string
  | Delay nat

type_synonym 'a async = "event list \<times> (js_error + 'a)"

fun apply_event :: "wallet_state \<Rightarrow> event \<Rightarrow> wallet_state" where
  "apply_event st (SetAddress a) = st\<lparr>address := a\<rparr>"
| "apply_event st (SetBalanceLovelace q) = st\<lparr>balanceLovelace := q\<rparr>"
| "apply_event st (SetIsLoadingBalance b) = st\<lparr>isLoadingBalance := b\<rparr>"
| "apply_event st (SetTxStatus s) = st\<lparr>txStatus := s\<rparr>"
| "apply_event st (SetIsTxRunning b) = st\<lparr>isTxRunning := b\<rparr>"
| "apply_event st (ConsoleError m) = st"
| "apply_event st (Delay ms) = st"

definition run_events :: "wallet_state \<Rightarrow> event list \<Rightarrow> wallet_state" where
  "run_events st evs = foldl apply_event st evs"

definition resolve :: "'a \<Rightarrow> 'a async" where
  "resolve x = ([], Inr x)"

definition await :: "js_error + 'a \<Rightarrow> 'a async" where
  "await outcome = ([], outcome)"

definition do_event :: "event \<Rightarrow> unit async" where
  "do_event ev = ([ev], Inr ())"

definition bind_async :: "'a async \<Rightarrow> ('a \<Rightarrow> 'b async) \<Rightarrow> 'b async" where
  "bind_async m f =
     (case m of
        (evs, Inl err) \<Rightarrow> (evs, Inl err)
      | (evs, Inr x) \<Rightarrow> (case f x of (evs', r) \<Rightarrow> (evs @ evs', r)))"

definition seq_async :: "unit async \<Rightarrow> 'b async \<Rightarrow> 'b async" where
  "seq_async m n = bind_async m (\<lambda>_. n)"

definition try_catch :: "'a async \<Rightarrow> (js_error \<Rightarrow> 'a async) \<Rightarrow> 'a async" where
  "try_catch m handler =
     (case m of
        (evs, Inl err) \<Rightarrow> (case handler err of (evs', r) \<Rightarrow> (evs @ evs', r))
      | (evs, Inr x) \<Rightarrow> (evs, Inr x))"

text \<open>A \<open>finally\<close> block that completes normally leaves the outcome of the \<open>try\<close> as it was.\<close>

definition try_finally :: "'a async \<Rightarrow> unit async \<Rightarrow> 'a async" where
  "try_finally m finalizer =
     (case m of (evs, r) \<Rightarrow>
        (case finalizer of
           (evs', Inl err) \<Rightarrow> (evs @ evs', Inl err)
         | (evs', Inr _) \<Rightarrow> (evs @ evs', r)))"

text \<open>
  The outcomes of the external calls of one run: the wallet (address, build, sign, submit,
  balance) and the HTTP request to the collector (\<open>fetch\<close> resolves with the status code of
  any response and rejects only when no response arrives). \<open>tx_build\<close> stands for
  \<open>new Transaction\<close>, \<open>sendLovelace\<close> and \<open>build\<close> together, given the address and the amount;
  transactions and hashes are the strings that the library hands out.
\<close>

record wallet_env =
  wallet_getChangeAddress :: "js_error + string"
  tx_build :: "string \<Rightarrow> string \<Rightarrow> js_error + string"
  wallet_signTx :: "string \<Rightarrow> js_error + string"
  wallet_submitTx :: "string \<Rightarrow> js_error + string"
  wallet_getBalance :: "js_error + asset list"
  fetch :: "string \<Rightarrow> string \<times> string \<times> string \<Rightarrow> js_error + nat"

definition getBalance :: "bool \<Rightarrow> bool \<Rightarrow> wallet_env \<Rightarrow> unit async" where
  "getBalance connected wallet env =
     (if \<not> connected \<or> \<not> wallet then resolve ()
      else
        try_finally
          (try_catch
             (seq_async (do_event (SetIsLoadingBalance True))
               (bind_async (await (wallet_getBalance env)) (\<lambda>assets.
                  let lovelaceAsset = find (\<lambda>asset. unit asset = ''lovelace'') assets;
                      quantity = (case lovelaceAsset of Some a \<Rightarrow> quantity a | None \<Rightarrow> ''0'')
                  in do_event (SetBalanceLovelace quantity))))
             (\<lambda>err.
                seq_async (do_event (ConsoleError ''Failed to get balance:''))
                  (do_event (SetBalanceLovelace ''0''))))
          (do_event (SetIsLoadingBalance False)))"

text \<open>\<open>err?.info?.message || err?.message || "Transaction failed. ..."\<close>: an empty string is falsy.\<close>

definition error_message :: "js_error \<Rightarrow> string" where
  "error_message err =
     (case info_message err of
        Some m \<Rightarrow> if m \<noteq> [] then m
                  else (case err_message err of
                          Some m' \<Rightarrow> if m' \<noteq> [] then m'
                                     else ''Transaction failed. Please check your wallet and try again.''
                        | None \<Rightarrow> ''Transaction failed. Please check your wallet and try again.'')
      | None \<Rightarrow>
          (case err_message err of
             Some m' \<Rightarrow> if m' \<noteq> [] then m'
                        else ''Transaction failed. Please check your wallet and try again.''
           | None \<Rightarrow> ''Transaction failed. Please check your wallet and try again.''))"

definition sendToSelf_try :: "bool \<Rightarrow> bool \<Rightarrow> wallet_env \<Rightarrow> unit async" where
  "sendToSelf_try connected wallet env =
     seq_async (do_event (SetIsTxRunning True))
    (seq_async (do_event (SetTxStatus
        \<lparr>step = Building,
         message = ''Building transaction to send 1 ADA to your own address...'',
         txHash = None\<rparr>))
    (bind_async (await (wallet_getChangeAddress env)) (\<lambda>changeAddress.
     let ONE_ADA_IN_LOVELACE = ''1000000'' in
     bind_async (await (tx_build env changeAddress ONE_ADA_IN_LOVELACE)) (\<lambda>unsignedTx.
     seq_async (do_event (SetTxStatus
        \<lparr>step = Signing,
         message = ''Please sign the transaction in your wallet...'',
         txHash = None\<rparr>))
    (bind_async (await (wallet_signTx env unsignedTx)) (\<lambda>signedTx.
     seq_async (do_event (SetTxStatus
        \<lparr>step = Submitting,
         message = ''Submitting transaction to the Cardano testnet...'',
         txHash = None\<rparr>))
    (bind_async (await (wallet_submitTx env signedTx)) (\<lambda>hash.
     seq_async (do_event (SetTxStatus
        \<lparr>step = Confirming,
         message = ''Transaction submitted! Waiting briefly before updating balance...'',
         txHash = Some hash\<rparr>))
    (seq_async (do_event (Delay 8000))
    (seq_async (getBalance connected wallet env)
    (seq_async (do_event (SetTxStatus
        \<lparr>step = Success, message = ''Transaction successful!'', txHash = Some hash\<rparr>))
    (try_catch
       (bind_async
          (await (fetch env ''http://localhost:4000/api/transactions''
                    (hash, changeAddress, ''preprod'')))
          (\<lambda>_. resolve ()))
       (\<lambda>apiErr. do_event (ConsoleError ''Failed to notify backend about transaction:'')))
    )))))))))))"

definition sendToSelf_catch :: "js_error \<Rightarrow> unit async" where
  "sendToSelf_catch err =
     seq_async (do_event (ConsoleError ''Transaction error:''))
       (do_event (SetTxStatus \<lparr>step = Error, message = error_message err, txHash = None\<rparr>))"

text \<open>
  \<open>st\<close> is the state the invocation sees (the cells captured by its closure), \<open>connected\<close>
  and \<open>wallet\<close> what \<open>useWallet\<close> gave to that render.
\<close>

definition sendToSelf :: "bool \<Rightarrow> bool \<Rightarrow> wallet_env \<Rightarrow> wallet_state \<Rightarrow> unit async" where
  "sendToSelf connected wallet env st =
     (if isTxRunning st \<or> \<not> connected \<or> \<not> wallet then resolve ()
      else
        try_finally
          (try_catch (sendToSelf_try connected wallet env) sendToSelf_catch)
          (do_event (SetIsTxRunning False)))"

text \<open>The statuses a run sets, in order, and the state it leaves.\<close>

definition statuses_of :: "event list \<Rightarrow> tx_status list" where
  "statuses_of evs = concat (map (\<lambda>ev. case ev of SetTxStatus s \<Rightarrow> [s] | _ \<Rightarrow> []) evs)"

definition state_after :: "wallet_state \<Rightarrow> 'a async \<Rightarrow> wallet_state" where
  "state_after st run = run_events st (fst run)"

text \<open>
  The wallet calls of \<open>sendToSelf\<close> up to and including \<open>submitTx\<close>, in the order in which
  they are awaited: \<open>Inr hash\<close> when submission succeeded, \<open>Inl err\<close> with the first failure.
\<close>

definition submission :: "wallet_env \<Rightarrow> js_error + string" where
  "submission env =
     (case wallet_getChangeAddress env of
        Inl err \<Rightarrow> Inl err
      | Inr changeAddress \<Rightarrow>
          (case tx_build env changeAddress ''1000000'' of
             Inl err \<Rightarrow> Inl err
           | Inr unsignedTx \<Rightarrow>
               (case wallet_signTx env unsignedTx of
                  Inl err \<Rightarrow> Inl err
                | Inr signedTx \<Rightarrow> wallet_submitTx env signedTx)))"

section \<open>The transaction collector (Express handlers)\<close>

text \<open>
  A value of a parsed JSON body, as far as the handlers look at it: its type and whether it
  is truthy, and what the String type of the Mongoose schema makes of it.
  \<open>JUndefined\<close> is a key that is absent. \<open>JObject\<close> is an array or a plain object (an object
  with a string under \<open>_id\<close>, which the schema would cast to that string, is not part of the
  model). A number is an integer of the safe range, whose text is its decimal digits;
  other numbers are not part of the model.
\<close>

datatype json = JUndefined | JNull | JBool bool | JNumber int | JString string | JObject

fun truthy :: "json \<Rightarrow> bool" where
  "truthy JUndefined = False"
| "truthy JNull = False"
| "truthy (JBool b) = b"
| "truthy (JNumber n) = (n \<noteq> 0)"
| "truthy (JString s) = (s \<noteq> [])"
| "truthy JObject = True"

text \<open>
  The fields that the create handler destructures from \<open>req.body\<close>, and the record it
  builds from them. (\<open>req_\<close> and \<open>rec_\<close> keep the field names of the request, of the stored
  record and of the client's status record apart.) \<open>createdAt\<close> is the clock reading in
  milliseconds; the ISO string of the array and the date of a Mongo document render it and
  order as it does.
\<close>

record request_body =
  req_txHash :: json
  req_walletAddress :: json
  req_network :: json

record tx_record =
  rec_txHash :: string
  rec_walletAddress :: json
  rec_network :: json
  createdAt :: nat

datatype source = Mongo | Memory

text \<open>
  The JSON answers: \<open>{ok: true, source, items}\<close>, \<open>{ok: true, source, item}\<close> and
  \<open>{ok: false, message}\<close>.
\<close>

datatype response_body =
    Items source "tx_record list"
  | Item source tx_record
  | Failure string

fun ok :: "response_body \<Rightarrow> bool" where
  "ok (Items src xs) = True"
| "ok (Item src x) = True"
| "ok (Failure m) = False"

record response =
  status :: nat
  body :: response_body

text \<open>
  The module state: the flag \<open>mongoConnected\<close> and the array \<open>inMemoryTxHistory\<close>.
  \<open>mongoCollection\<close> stands for the documents of the external collection behind the
  \<open>Transaction\<close> model, in insertion order.
\<close>

record server_state =
  mongoConnected :: bool
  inMemoryTxHistory :: "tx_record list"
  mongoCollection :: "tx_record list"

text \<open>
  Loading the module: the flag is false and the array is empty. When \<open>MONGODB_URI\<close> is
  not empty, \<open>mongoose.connect\<close> is started, and its promise settles later: fulfilled, it sets
  the flag; rejected, it clears it.
\<close>

definition module_loaded :: "tx_record list \<Rightarrow> server_state" where
  "module_loaded docs = \<lparr>mongoConnected = False, inMemoryTxHistory = [], mongoCollection = docs\<rparr>"

definition connect_settled :: "string \<Rightarrow> js_error + unit \<Rightarrow> server_state \<Rightarrow> server_state" where
  "connect_settled MONGODB_URI outcome st =
     (if MONGODB_URI \<noteq> [] then
        (case outcome of
           Inr _ \<Rightarrow> st\<lparr>mongoConnected := True\<rparr>
         | Inl err \<Rightarrow> st\<lparr>mongoConnected := False\<rparr>)
      else st)"

text \<open>\<open>xs.slice(-n)\<close>: from index \<open>max (length - n) 0\<close> to the end.\<close>

definition slice_last :: "nat \<Rightarrow> 'a list \<Rightarrow> 'a list" where
  "slice_last n xs = drop (length xs - n) xs"

text \<open>
  \<open>Transaction.find({}).sort({createdAt: -1}).limit(n)\<close>: the documents by descending
  \<open>createdAt\<close>, the first \<open>n\<close> of them. (The store leaves the order of documents with equal
  \<open>createdAt\<close> open; here the later insertion comes first.)
\<close>

definition find_sort_limit :: "nat \<Rightarrow> tx_record list \<Rightarrow> tx_record list" where
  "find_sort_limit n docs = take n (rev (sort_key createdAt docs))"

text \<open>
  \<open>GET /api/transactions\<close>. \<open>fault\<close> is the error with which the store rejects the query,
  if it does.
\<close>

definition get_transactions :: "server_state \<Rightarrow> js_error option \<Rightarrow> response" where
  "get_transactions st fault =
     (if mongoConnected st then
        (case fault of
           None \<Rightarrow> \<lparr>status = 200, body = Items Mongo (find_sort_limit 20 (mongoCollection st))\<rparr>
         | Some err \<Rightarrow>
             \<lparr>status = 500, body = Failure ''Failed to fetch transaction history.''\<rparr>)
      else
        (let sliced = rev (slice_last 20 (inMemoryTxHistory st))
         in \<lparr>status = 200, body = Items Memory sliced\<rparr>))"

text \<open>\<open>!txHash || typeof txHash !== "string" || !txHash.trim()\<close>\<close>

definition txHash_invalid :: "json \<Rightarrow> bool" where
  "txHash_invalid h =
     (\<not> truthy h \<or> (case h of JString s \<Rightarrow> False | _ \<Rightarrow> True)
      \<or> (case h of JString s \<Rightarrow> trim s = [] | _ \<Rightarrow> True))"

text \<open>
  The schema declares \<open>walletAddress\<close> and \<open>network\<close> as \<open>String\<close>. Mongoose casts a value
  to that type with its \<open>toString()\<close>: a string stays, a number and a boolean become their
  text, \<open>null\<close> and \<open>undefined\<close> pass, and an array or a plain object is refused with a
  CastError (\<open>None\<close>).
\<close>

definition castString :: "json \<Rightarrow> json option" where
  "castString v =
     (case v of
        JUndefined \<Rightarrow> Some JUndefined
      | JNull \<Rightarrow> Some JNull
      | JBool b \<Rightarrow> Some (JString (if b then ''true'' else ''false''))
      | JNumber n \<Rightarrow> Some (JString (BigInt_toString n))
      | JString s \<Rightarrow> Some (JString s)
      | JObject \<Rightarrow> None)"

definition schema_cast :: "tx_record \<Rightarrow> tx_record option" where
  "schema_cast r =
     (case castString (rec_walletAddress r) of
        None \<Rightarrow> None
      | Some w \<Rightarrow>
          (case castString (rec_network r) of
             None \<Rightarrow> None
           | Some n \<Rightarrow> Some (r\<lparr>rec_walletAddress := w, rec_network := n\<rparr>)))"

text \<open>
  \<open>Transaction.create(txRecord)\<close>: the record is cast by the schema, and a cast that is
  refused rejects the call before the store is asked. Otherwise the store inserts the
  document, or rejects with \<open>fault\<close>. The promise is fulfilled with the document as stored
  (here: the fields of the record; \<open>_id\<close>, \<open>updatedAt\<close> and \<open>__v\<close> are left out).
\<close>

definition Transaction_create :: "js_error option \<Rightarrow> tx_record \<Rightarrow> js_error + tx_record" where
  "Transaction_create fault txRecord =
     (case schema_cast txRecord of
        None \<Rightarrow>
          Inl \<lparr>info_message = None, err_message = Some ''Transaction validation failed''\<rparr>
      | Some doc \<Rightarrow> (case fault of Some err \<Rightarrow> Inl err | None \<Rightarrow> Inr doc))"

text \<open>
  \<open>POST /api/transactions\<close>. \<open>req_body\<close> is \<open>req.body\<close> (\<open>None\<close>: no body, read as \<open>{}\<close>),
  \<open>now\<close> the clock reading that stamps the record, \<open>fault\<close> the error with which the store
  rejects the insertion, if it does. The answer comes with the state the handler leaves.
\<close>

definition post_transactions ::
  "server_state \<Rightarrow> request_body option \<Rightarrow> nat \<Rightarrow> js_error option \<Rightarrow> response \<times> server_state"
where
  "post_transactions st req_body now fault =
     (let b = (case req_body of
                 Some b \<Rightarrow> b
               | None \<Rightarrow> \<lparr>req_txHash = JUndefined, req_walletAddress = JUndefined,
                           req_network = JUndefined\<rparr>)
      in
      if txHash_invalid (req_txHash b) then
        (\<lparr>status = 400, body = Failure ''txHash is required and must be a non-empty string.''\<rparr>,
         st)
      else
        (let txRecord =
           \<lparr>rec_txHash = (case req_txHash b of JString s \<Rightarrow> trim s | _ \<Rightarrow> []),
            rec_walletAddress =
              (if truthy (req_walletAddress b) then req_walletAddress b else JString []),
            rec_network =
              (if truthy (req_network b) then req_network b else JString ''preprod''),
            createdAt = now\<rparr>
         in
         if mongoConnected st then
           (case Transaction_create fault txRecord of
              Inr created \<Rightarrow>
                (\<lparr>status = 201, body = Item Mongo created\<rparr>,
                 st\<lparr>mongoCollection := mongoCollection st @ [created]\<rparr>)
            | Inl err \<Rightarrow>
                (\<lparr>status = 500, body = Failure ''Failed to save transaction.''\<rparr>, st))
         else
           (\<lparr>status = 201, body = Item Memory txRecord\<rparr>,
            st\<lparr>inMemoryTxHistory := inMemoryTxHistory st @ [txRecord]\<rparr>)))"

text \<open>
  The wording of the specification for a hash that the create operation rejects: missing,
  not a string, or empty after trimming.
\<close>

definition spec_txHash_rejected :: "request_body option \<Rightarrow> bool" where
  "spec_txHash_rejected req_body =
     (case req_body of
        None \<Rightarrow> True
      | Some b \<Rightarrow>
          (case req_txHash b of
             JUndefined \<Rightarrow> True
           | JString s \<Rightarrow> trim s = []
           | _ \<Rightarrow> True))"

text \<open>
  The states the server can be in: the module as loaded, the connection promise settling,
  and any request handled. Between requests nothing else writes the array.
\<close>

inductive reachable :: "server_state \<Rightarrow> bool" where
  loaded: "reachable (module_loaded docs)"
| settled: "reachable st \<Longrightarrow> reachable (connect_settled uri outcome st)"
| posted: "reachable st \<Longrightarrow> reachable (snd (post_transactions st req_body now fault))"

text \<open>
  The states that the server reaches while its clock never runs backwards: every create
  request is stamped with a reading that is no earlier than the stamps already in the array.
\<close>

inductive reachable_steady :: "server_state \<Rightarrow> bool" where
  loaded: "reachable_steady (module_loaded docs)"
| settled: "reachable_steady st \<Longrightarrow> reachable_steady (connect_settled uri outcome st)"
| posted: "reachable_steady st \<Longrightarrow> \<forall>r\<in>set (inMemoryTxHistory st). createdAt r \<le> now \<Longrightarrow>
           reachable_steady (snd (post_transactions st req_body now fault))"

section \<open>Sample inputs\<close>

text \<open>
  A wallet card that is idle, a wallet for which every call succeeds while the collector
  cannot be reached, and a wallet whose user declines to sign.
\<close>

definition idle_state :: wallet_state where
  "idle_state =
     \<lparr>address = ''addr_test1'', balanceLovelace = ''0'', isLoadingBalance = False,
      txStatus = initialTxStatus, isTxRunning = False\<rparr>"

definition willing_env :: wallet_env where
  "willing_env =
     \<lparr>wallet_getChangeAddress = Inr ''addr_test1'',
      tx_build = (\<lambda>changeAddress amount. Inr (''tx:'' @ changeAddress @ '':'' @ amount)),
      wallet_signTx = (\<lambda>unsignedTx. Inr (''signed:'' @ unsignedTx)),
      wallet_submitTx = (\<lambda>signedTx. Inr ''hash1''),
      wallet_getBalance = Inr [\<lparr>unit = ''lovelace'', quantity = ''5000000''\<rparr>],
      fetch = (\<lambda>url payload.
                 Inl \<lparr>info_message = None, err_message = Some ''Failed to fetch''\<rparr>)\<rparr>"

definition declining_env :: wallet_env where
  "declining_env =
     willing_env\<lparr>wallet_signTx :=
       (\<lambda>unsignedTx. Inl \<lparr>info_message = Some ''user declined'', err_message = None\<rparr>)\<rparr>"

text \<open>
  Requests to the collector: a hash of two blanks and the hash \<open>"abc123"\<close>; the error of a
  store that cannot be reached; a server started without \<open>MONGODB_URI\<close>, and one whose
  connection to an empty collection has been established.
\<close>

definition blank_request :: request_body where
  "blank_request =
     \<lparr>req_txHash = JString ''  '', req_walletAddress = JUndefined, req_network = JUndefined\<rparr>"

definition abc_request :: request_body where
  "abc_request =
     \<lparr>req_txHash = JString ''abc123'', req_walletAddress = JString ''addr_test1'',
      req_network = JUndefined\<rparr>"

definition abc_record :: "nat \<Rightarrow> tx_record" where
  "abc_record now =
     \<lparr>rec_txHash = ''abc123'', rec_walletAddress = JString ''addr_test1'',
      rec_network = JString ''preprod'', createdAt = now\<rparr>"

definition store_down :: js_error where
  "store_down = \<lparr>info_message = None, err_message = Some ''connection refused''\<rparr>"

definition memory_server :: server_state where
  "memory_server = module_loaded []"

definition mongo_server :: server_state where
  "mongo_server =
     connect_settled ''mongodb://127.0.0.1:27017/cardano_dapp'' (Inr ()) (module_loaded [])"

text \<open>
  A request with surrounding blanks in the hash and the number 5 as wallet address, the
  document that Mongo keeps of it, and a server whose collection holds 25 documents,
  inserted out of the order of their stamps.
\<close>

definition numeric_request :: request_body where
  "numeric_request =
     \<lparr>req_txHash = JString '' abc123 '', req_walletAddress = JNumber 5,
      req_network = JUndefined\<rparr>"

definition numeric_document :: "nat \<Rightarrow> tx_record" where
  "numeric_document now =
     \<lparr>rec_txHash = ''abc123'', rec_walletAddress = JString ''5'',
      rec_network = JString ''preprod'', createdAt = now\<rparr>"

definition stocked_mongo_server :: server_state where
  "stocked_mongo_server =
     \<lparr>mongoConnected = True, inMemoryTxHistory = [],
      mongoCollection = map abc_record ([10..<26] @ [1..<10])\<rparr>"

text \<open>A server without Mongo that has stored 21 records, at the clock readings 1 to 21.\<close>

definition busy_memory_server :: server_state where
  "busy_memory_server =
     \<lparr>mongoConnected = False, inMemoryTxHistory = map abc_record [1..<22],
      mongoCollection = []\<rparr>"

section \<open>Properties of the balance formatter\<close>

subsection \<open>Decimal digits\<close>

lemma digit_cases: "d < 10 \<Longrightarrow> d \<in> {0, 1, 2, 3, 4, 5, 6, 7, 8, 9 :: nat}"
  by auto

lemma digitValue_digitChar: "d < 10 \<Longrightarrow> digitValue (digitChar d) = Some d"
  using digit_cases [of d] by (auto simp: digitValue_def digitChar_def)

lemma digitChar_not_space: "d < 10 \<Longrightarrow> \<not> isStrWhiteSpaceChar (digitChar d)"
  using digit_cases [of d] by (auto simp: isStrWhiteSpaceChar_def digitChar_def)

lemma digitChar_not_special: "d < 10 \<Longrightarrow> digitChar d \<notin> set ''xXbBoO+-''"
  using digit_cases [of d] by (auto simp: digitChar_def)

lemma parseDigitsFrom_append:
  "parseDigitsFrom r acc (xs @ ys) =
     (case parseDigitsFrom r acc xs of None \<Rightarrow> None | Some a \<Rightarrow> parseDigitsFrom r a ys)"
  by (induction xs arbitrary: acc) (auto split: option.splits)

lemma natToString_not_Nil: "natToString n \<noteq> []"
  by (subst natToString.simps) simp

lemma natToString_digits: "c \<in> set (natToString n) \<Longrightarrow> \<exists>d<10. c = digitChar d"
proof (induction n rule: natToString.induct)
  case (1 n)
  show ?case
  proof (cases "n < 10")
    case True
    with "1.prems" show ?thesis by (subst (asm) natToString.simps) auto
  next
    case False
    with "1.prems" have "c \<in> set (natToString (n div 10)) \<or> c = digitChar (n mod 10)"
      by (subst (asm) natToString.simps) auto
    then show ?thesis
    proof
      assume "c \<in> set (natToString (n div 10))"
      with "1.IH" False show ?thesis by simp
    next
      assume "c = digitChar (n mod 10)"
      moreover have "n mod 10 < 10" by simp
      ultimately show ?thesis by blast
    qed
  qed
qed

lemma parseDigitsFrom_natToString: "parseDigitsFrom 10 0 (natToString n) = Some n"
proof (induction n rule: natToString.induct)
  case (1 n)
  show ?case
  proof (cases "n < 10")
    case True
    then show ?thesis
      by (subst natToString.simps) (simp add: digitValue_digitChar)
  next
    case False
    have md: "n mod 10 < 10" by simp
    from False "1.IH" have ih: "parseDigitsFrom 10 0 (natToString (n div 10)) = Some (n div 10)"
      by simp
    show ?thesis
      using False
      by (subst natToString.simps)
         (simp add: parseDigitsFrom_append ih digitValue_digitChar [OF md])
  qed
qed

lemma length_natToString: "0 < k \<Longrightarrow> n < 10 ^ k \<Longrightarrow> length (natToString n) \<le> k"
proof (induction n arbitrary: k rule: natToString.induct)
  case (1 n)
  show ?case
  proof (cases "n < 10")
    case True
    with "1.prems" show ?thesis by (subst natToString.simps) simp
  next
    case False
    from False "1.prems" have k2: "1 < k"
      by (cases "k = 1") auto
    then obtain j where j: "k = Suc j" "0 < j" by (cases k) auto
    from "1.prems"(2) j have "n div 10 < 10 ^ j"
      by (simp add: less_mult_imp_div_less mult.commute)
    with "1.IH" [OF False j(2)] have "length (natToString (n div 10)) \<le> j" by simp
    with False j show ?thesis by (subst natToString.simps) simp
  qed
qed

subsection \<open>Reading a decimal rendering back\<close>

lemma trim_no_space: "\<forall>c\<in>set s. \<not> isStrWhiteSpaceChar c \<Longrightarrow> trim s = s"
proof (cases s)
  case Nil
  then show ?thesis by (simp add: trim_def)
next
  case (Cons a as)
  assume ns: "\<forall>c\<in>set s. \<not> isStrWhiteSpaceChar c"
  with Cons have d1: "dropWhile isStrWhiteSpaceChar s = s" by simp
  have "rev s \<noteq> []" using Cons by simp
  then obtain b bs where r: "rev s = b # bs" by (cases "rev s") auto
  then have "b \<in> set s" by (metis list.set_intros(1) set_rev)
  with ns r have "dropWhile isStrWhiteSpaceChar (rev s) = rev s" by simp
  with d1 show ?thesis by (simp add: trim_def)
qed

lemma StringToBigInt_natToString: "StringToBigInt (natToString n) = Some (int n)"
proof -
  let ?s = "natToString n"
  have dig: "\<And>c. c \<in> set ?s \<Longrightarrow> \<exists>d<10. c = digitChar d" by (rule natToString_digits)
  have nsp: "\<forall>c\<in>set ?s. \<not> isStrWhiteSpaceChar c"
    using dig digitChar_not_space by blast
  have nspec: "\<And>c. c \<in> set ?s \<Longrightarrow> c \<notin> set ''xXbBoO+-''"
    using dig digitChar_not_special by blast
  have tr: "trim ?s = ?s" using nsp by (rule trim_no_space)
  have ne: "?s \<noteq> []" by (rule natToString_not_Nil)
  have hd_in: "hd ?s \<in> set ?s" using ne by simp
  have no_prefix: "take 2 ?s \<noteq> [a, b]" if "b \<in> set ''xXbBoO''" for a b
  proof
    assume "take 2 ?s = [a, b]"
    then have "b \<in> set (take 2 ?s)" by simp
    then have "b \<in> set ?s" by (rule in_set_takeD)
    with nspec that show False by auto
  qed
  have hdm: "hd ?s \<noteq> CHR ''-''" "hd ?s \<noteq> CHR ''+''"
    using nspec [OF hd_in] by auto
  show ?thesis
    using ne hdm no_prefix
    by (simp add: StringToBigInt_def tr parseDigits_def parseDigitsFrom_natToString)
qed

lemma natToString_0: "natToString 0 = ''0''"
  by (subst natToString.simps) (simp add: digitChar_def)

lemma StringToBigInt_0: "StringToBigInt ''0'' = Some 0"
  using StringToBigInt_natToString [of 0] by (simp add: natToString_0)

lemma StringToBigInt_Nil: "StringToBigInt [] = Some 0"
  by (simp add: StringToBigInt_def trim_def)

lemma BigInt_orZero_BigIntValue: "BigInt (orZero (BigIntValue i)) = Inr i"
  by (simp add: BigInt_def orZero_def StringToBigInt_0)

lemma BigInt_orZero_decimal:
  "0 \<le> m \<Longrightarrow> BigInt (orZero (StringValue (BigInt_toString m))) = Inr m"
  by (simp add: BigInt_def orZero_def BigInt_toString_def natToString_not_Nil
      StringToBigInt_natToString)

subsection \<open>The formatted amount\<close>

lemma bigint_div_nonneg: "0 \<le> m \<Longrightarrow> bigint_div m 1000000 = m div 1000000"
  by (cases "m = 0") (simp_all add: bigint_div_def)

lemma bigint_rem_nonneg: "0 \<le> m \<Longrightarrow> bigint_rem m 1000000 = m mod 1000000"
  by (cases "m = 0") (simp_all add: bigint_rem_def)

lemma length_fraction: "0 \<le> m \<Longrightarrow> length (BigInt_toString (m mod 1000000)) \<le> 6"
proof -
  assume "0 \<le> m"
  have nn: "0 \<le> m mod 1000000" and "m mod 1000000 < 1000000" by simp_all
  then have "nat (m mod 1000000) < 10 ^ 6" by simp
  then have "length (natToString (nat (m mod 1000000))) \<le> 6"
    by (intro length_natToString) simp_all
  moreover from nn have "\<not> m mod 1000000 < 0" by linarith
  then have "BigInt_toString (m mod 1000000) = natToString (nat (m mod 1000000))"
    unfolding BigInt_toString_def by (rule if_not_P)
  ultimately show ?thesis by simp
qed

lemma padStart_short:
  "length s \<le> n \<Longrightarrow> padStart n c s = replicate (n - length s) c @ s"
  by (simp add: padStart_def)

lemma formatLovelaceToAda_of_BigInt:
  assumes "BigInt (orZero v) = Inr m" and "0 \<le> m"
  shows "formatLovelaceToAda v =
           Inr (BigInt_toString (m div 1000000) @ ''.'' @
                replicate (6 - length (BigInt_toString (m mod 1000000))) (CHR ''0'') @
                BigInt_toString (m mod 1000000) @ '' ADA'')"
  using assms
  by (simp add: formatLovelaceToAda_def bigint_div_nonneg bigint_rem_nonneg
      padStart_short [OF length_fraction])

lemma formatLovelaceToAda_total_of_BigInt:
  "BigInt (orZero v) = Inr m \<Longrightarrow> \<exists>r. formatLovelaceToAda v = Inr r"
  by (simp add: formatLovelaceToAda_def Let_def)

lemma formatLovelaceToAda_zero:
  assumes "BigInt (orZero v) = Inr 0"
  shows "formatLovelaceToAda v = Inr ''0.000000 ADA''"
proof -
  have "BigInt_toString (0 div 1000000) @ ''.'' @
          replicate (6 - length (BigInt_toString (0 mod 1000000))) (CHR ''0'') @
          BigInt_toString (0 mod 1000000) @ '' ADA'' = ''0.000000 ADA''"
    by code_simp
  with formatLovelaceToAda_of_BigInt [OF assms] show ?thesis by simp
qed

text \<open>
  C1 (as amended). For every non-negative integer \<open>m\<close>, given as a BigInt or as its decimal
  string, \<open>formatLovelaceToAda\<close> returns the decimal rendering of \<open>floor (m / 1000000)\<close>, a
  dot, \<open>m mod 1000000\<close> padded with zeros on the left to six digits, and then the suffix
  \<open>" ADA"\<close>; the remainder never has more than six digits.
\<close>

theorem formatLovelaceToAda_nonnegative:
  assumes "0 \<le> m"
  shows "formatLovelaceToAda (BigIntValue m) =
           Inr (BigInt_toString (m div 1000000) @ ''.'' @
                replicate (6 - length (BigInt_toString (m mod 1000000))) (CHR ''0'') @
                BigInt_toString (m mod 1000000) @ '' ADA'')
         \<and> formatLovelaceToAda (StringValue (BigInt_toString m)) =
             formatLovelaceToAda (BigIntValue m)
         \<and> length (BigInt_toString (m mod 1000000)) \<le> 6"
proof -
  have big: "formatLovelaceToAda (BigIntValue m) =
           Inr (BigInt_toString (m div 1000000) @ ''.'' @
                replicate (6 - length (BigInt_toString (m mod 1000000))) (CHR ''0'') @
                BigInt_toString (m mod 1000000) @ '' ADA'')"
    using BigInt_orZero_BigIntValue assms by (rule formatLovelaceToAda_of_BigInt)
  have str: "formatLovelaceToAda (StringValue (BigInt_toString m)) =
           Inr (BigInt_toString (m div 1000000) @ ''.'' @
                replicate (6 - length (BigInt_toString (m mod 1000000))) (CHR ''0'') @
                BigInt_toString (m mod 1000000) @ '' ADA'')"
    using BigInt_orZero_decimal [OF assms] assms by (rule formatLovelaceToAda_of_BigInt)
  from big str length_fraction [OF assms] show ?thesis by simp
qed

text \<open>
  The theorem at \<open>m = 1000000\<close>, \<open>m = 1\<close> and \<open>m = 0\<close>: the amounts of the specification's
  examples, each followed by \<open>" ADA"\<close>.
\<close>

theorem formatLovelaceToAda_nonnegative_witness:
  "formatLovelaceToAda (BigIntValue 1000000) = Inr ''1.000000 ADA''
   \<and> formatLovelaceToAda (StringValue (BigInt_toString 1)) = Inr ''0.000001 ADA''
   \<and> formatLovelaceToAda (BigIntValue 0) = Inr ''0.000000 ADA''"
proof -
  have h: "(0::int) \<le> 1000000" "(0::int) \<le> 1" "(0::int) \<le> 0" by simp_all
  have a: "formatLovelaceToAda (BigIntValue 1000000) =
           Inr (BigInt_toString (1000000 div 1000000) @ ''.'' @
                replicate (6 - length (BigInt_toString (1000000 mod 1000000))) (CHR ''0'') @
                BigInt_toString (1000000 mod 1000000) @ '' ADA'')"
    using formatLovelaceToAda_nonnegative [OF h(1)] by blast
  have b: "formatLovelaceToAda (StringValue (BigInt_toString 1)) =
           Inr (BigInt_toString (1 div 1000000) @ ''.'' @
                replicate (6 - length (BigInt_toString (1 mod 1000000))) (CHR ''0'') @
                BigInt_toString (1 mod 1000000) @ '' ADA'')"
    using formatLovelaceToAda_nonnegative [OF h(2)] by simp
  have c: "formatLovelaceToAda (BigIntValue 0) =
           Inr (BigInt_toString (0 div 1000000) @ ''.'' @
                replicate (6 - length (BigInt_toString (0 mod 1000000))) (CHR ''0'') @
                BigInt_toString (0 mod 1000000) @ '' ADA'')"
    using formatLovelaceToAda_nonnegative [OF h(3)] by blast
  have a': "BigInt_toString (1000000 div 1000000) @ ''.'' @
                replicate (6 - length (BigInt_toString (1000000 mod 1000000))) (CHR ''0'') @
                BigInt_toString (1000000 mod 1000000) @ '' ADA'' = ''1.000000 ADA''"
    by code_simp
  have b': "BigInt_toString (1 div 1000000) @ ''.'' @
                replicate (6 - length (BigInt_toString (1 mod 1000000))) (CHR ''0'') @
                BigInt_toString (1 mod 1000000) @ '' ADA'' = ''0.000001 ADA''"
    by code_simp
  have c': "BigInt_toString (0 div 1000000) @ ''.'' @
                replicate (6 - length (BigInt_toString (0 mod 1000000))) (CHR ''0'') @
                BigInt_toString (0 mod 1000000) @ '' ADA'' = ''0.000000 ADA''"
    by code_simp
  from a b c show ?thesis unfolding a' b' c' by blast
qed

text \<open>
  C1 as stated fails: the result for 1000000 is not \<open>"1.000000"\<close>, since the code appends
  \<open>" ADA"\<close>.
\<close>

theorem formatLovelaceToAda_plain_counterexample:
  "formatLovelaceToAda (BigIntValue 1000000) \<noteq> Inr ''1.000000''"
  by code_simp

text \<open>
  C9 (as amended). The formatter returns a result for \<open>undefined\<close>, \<open>null\<close>, every BigInt
  and every string that \<open>BigInt\<close> can read; \<open>undefined\<close>, \<open>null\<close> and the empty string give the
  zero amount \<open>"0.000000 ADA"\<close>. A string that \<open>BigInt\<close> cannot read is not normalized to
  zero: the call raises a SyntaxError.
\<close>

theorem formatLovelaceToAda_total_on_readable:
  "formatLovelaceToAda Undefined = Inr ''0.000000 ADA''
   \<and> formatLovelaceToAda Null = Inr ''0.000000 ADA''
   \<and> formatLovelaceToAda (StringValue []) = Inr ''0.000000 ADA''
   \<and> (\<exists>r. formatLovelaceToAda (BigIntValue i) = Inr r)
   \<and> (StringToBigInt s \<noteq> None \<longrightarrow> (\<exists>r. formatLovelaceToAda (StringValue s) = Inr r))
   \<and> (StringToBigInt s = None \<longrightarrow> formatLovelaceToAda (StringValue s) = Inl SyntaxError)"
proof -
  have z: "BigInt (orZero Undefined) = Inr 0" "BigInt (orZero Null) = Inr 0"
    "BigInt (orZero (StringValue [])) = Inr 0"
    by (simp_all add: BigInt_def orZero_def StringToBigInt_0)
  have big: "\<exists>r. formatLovelaceToAda (BigIntValue i) = Inr r"
    using BigInt_orZero_BigIntValue by (rule formatLovelaceToAda_total_of_BigInt)
  have readable: "\<exists>r. formatLovelaceToAda (StringValue s) = Inr r"
    if "StringToBigInt s \<noteq> None"
  proof -
    from that obtain k where "StringToBigInt s = Some k" by blast
    then have "BigInt (orZero (StringValue s)) = Inr (if s = [] then 0 else k)"
      by (simp add: BigInt_def orZero_def StringToBigInt_0)
    then show ?thesis by (rule formatLovelaceToAda_total_of_BigInt)
  qed
  have unreadable: "formatLovelaceToAda (StringValue s) = Inl SyntaxError"
    if "StringToBigInt s = None"
  proof -
    from that have "s \<noteq> []" using StringToBigInt_Nil by auto
    with that show ?thesis
      by (simp add: formatLovelaceToAda_def BigInt_def orZero_def)
  qed
  from z big readable unreadable show ?thesis
    by (simp add: formatLovelaceToAda_zero)
qed

text \<open>
  The theorem at the strings \<open>" 42 "\<close> (readable: a result) and \<open>"12.5"\<close> (not readable: the
  SyntaxError).
\<close>

theorem formatLovelaceToAda_total_on_readable_witness:
  "StringToBigInt '' 42 '' \<noteq> None \<and> (\<exists>r. formatLovelaceToAda (StringValue '' 42 '') = Inr r)
   \<and> StringToBigInt ''12.5'' = None
   \<and> formatLovelaceToAda (StringValue ''12.5'') = Inl SyntaxError"
proof -
  have r: "StringToBigInt '' 42 '' \<noteq> None" by code_simp
  have u: "StringToBigInt ''12.5'' = None" by code_simp
  from r u formatLovelaceToAda_total_on_readable [of 0 "'' 42 ''"]
    formatLovelaceToAda_total_on_readable [of 0 "''12.5''"]
  show ?thesis by blast
qed

text \<open>
  C9 as stated fails: for the malformed string \<open>"abc"\<close> the formatter raises instead of
  returning the zero amount.
\<close>

theorem formatLovelaceToAda_malformed_counterexample:
  "formatLovelaceToAda (StringValue ''abc'') = Inl SyntaxError"
  by code_simp

section \<open>Properties of the wallet card\<close>

subsection \<open>What a run does\<close>

lemmas async_defs = resolve_def await_def do_event_def bind_async_def seq_async_def
  try_catch_def try_finally_def

lemma getBalance_run:
  "getBalance True True env =
     (case wallet_getBalance env of
        Inl err \<Rightarrow>
          ([SetIsLoadingBalance True, ConsoleError ''Failed to get balance:'',
            SetBalanceLovelace ''0'', SetIsLoadingBalance False], Inr ())
      | Inr assets \<Rightarrow>
          ([SetIsLoadingBalance True,
            SetBalanceLovelace
              (case find (\<lambda>asset. unit asset = ''lovelace'') assets of
                 Some a \<Rightarrow> quantity a | None \<Rightarrow> ''0''),
            SetIsLoadingBalance False], Inr ()))"
  by (simp add: getBalance_def async_defs Let_def split: sum.splits)

lemma getBalance_skipped:
  "\<not> connected \<or> \<not> wallet \<Longrightarrow> getBalance connected wallet env = ([], Inr ())"
  by (auto simp add: getBalance_def resolve_def)

lemma getBalance_resolves: "snd (getBalance connected wallet env) = Inr ()"
  by (cases connected; cases wallet)
     (simp_all add: getBalance_run getBalance_skipped split: sum.splits)

lemma statuses_of_getBalance: "statuses_of (fst (getBalance connected wallet env)) = []"
  by (cases connected; cases wallet)
     (simp_all add: getBalance_run getBalance_skipped statuses_of_def split: sum.splits)

lemma getBalance_pair:
  "getBalance connected wallet env = (fst (getBalance connected wallet env), Inr ())"
  using getBalance_resolves [of connected wallet env] by (simp add: prod_eq_iff)

lemma sendToSelf_try_run:
  "sendToSelf_try connected wallet env =
     (case wallet_getChangeAddress env of
        Inl err \<Rightarrow>
          ([SetIsTxRunning True,
            SetTxStatus \<lparr>step = Building,
              message = ''Building transaction to send 1 ADA to your own address...'',
              txHash = None\<rparr>], Inl err)
      | Inr changeAddress \<Rightarrow>
     (case tx_build env changeAddress ''1000000'' of
        Inl err \<Rightarrow>
          ([SetIsTxRunning True,
            SetTxStatus \<lparr>step = Building,
              message = ''Building transaction to send 1 ADA to your own address...'',
              txHash = None\<rparr>], Inl err)
      | Inr unsignedTx \<Rightarrow>
     (case wallet_signTx env unsignedTx of
        Inl err \<Rightarrow>
          ([SetIsTxRunning True,
            SetTxStatus \<lparr>step = Building,
              message = ''Building transaction to send 1 ADA to your own address...'',
              txHash = None\<rparr>,
            SetTxStatus \<lparr>step = Signing,
              message = ''Please sign the transaction in your wallet...'',
              txHash = None\<rparr>], Inl err)
      | Inr signedTx \<Rightarrow>
     (case wallet_submitTx env signedTx of
        Inl err \<Rightarrow>
          ([SetIsTxRunning True,
            SetTxStatus \<lparr>step = Building,
              message = ''Building transaction to send 1 ADA to your own address...'',
              txHash = None\<rparr>,
            SetTxStatus \<lparr>step = Signing,
              message = ''Please sign the transaction in your wallet...'',
              txHash = None\<rparr>,
            SetTxStatus \<lparr>step = Submitting,
              message = ''Submitting transaction to the Cardano testnet...'',
              txHash = None\<rparr>], Inl err)
      | Inr hash \<Rightarrow>
          ([SetIsTxRunning True,
            SetTxStatus \<lparr>step = Building,
              message = ''Building transaction to send 1 ADA to your own address...'',
              txHash = None\<rparr>,
            SetTxStatus \<lparr>step = Signing,
              message = ''Please sign the transaction in your wallet...'',
              txHash = None\<rparr>,
            SetTxStatus \<lparr>step = Submitting,
              message = ''Submitting transaction to the Cardano testnet...'',
              txHash = None\<rparr>,
            SetTxStatus \<lparr>step = Confirming,
              message = ''Transaction submitted! Waiting briefly before updating balance...'',
              txHash = Some hash\<rparr>,
            Delay 8000]
           @ fst (getBalance connected wallet env)
           @ [SetTxStatus \<lparr>step = Success, message = ''Transaction successful!'',
                txHash = Some hash\<rparr>]
           @ (case fetch env ''http://localhost:4000/api/transactions''
                     (hash, changeAddress, ''preprod'') of
                Inl apiErr \<Rightarrow> [ConsoleError ''Failed to notify backend about transaction:'']
              | Inr _ \<Rightarrow> []),
           Inr ())))))"
proof -
  obtain G where G: "getBalance connected wallet env = (G, Inr ())"
    using getBalance_pair by blast
  show ?thesis
    by (simp add: sendToSelf_try_def async_defs Let_def G split: sum.splits)
qed

lemma sendToSelf_skipped:
  "isTxRunning st \<or> \<not> connected \<or> \<not> wallet \<Longrightarrow> sendToSelf connected wallet env st = ([], Inr ())"
  by (auto simp: sendToSelf_def resolve_def)

lemma sendToSelf_run:
  "\<not> isTxRunning st \<Longrightarrow>
   sendToSelf True True env st =
     (case sendToSelf_try True True env of
        (evs, Inl err) \<Rightarrow>
          (evs @ [ConsoleError ''Transaction error:'',
                  SetTxStatus \<lparr>step = Error, message = error_message err, txHash = None\<rparr>,
                  SetIsTxRunning False], Inr ())
      | (evs, Inr x) \<Rightarrow> (evs @ [SetIsTxRunning False], Inr ()))"
  by (simp add: sendToSelf_def sendToSelf_catch_def async_defs split: prod.splits sum.splits)

lemma sendToSelf_failed:
  assumes "\<not> isTxRunning st" and "submission env = Inl err"
  shows "\<exists>pre. sendToSelf True True env st =
           (SetIsTxRunning True # map SetTxStatus pre @
              [ConsoleError ''Transaction error:'',
               SetTxStatus \<lparr>step = Error, message = error_message err, txHash = None\<rparr>,
               SetIsTxRunning False], Inr ())
         \<and> (\<forall>s\<in>set pre. txHash s = None \<and> step s \<in> {Building, Signing, Submitting})"
proof (cases "wallet_getChangeAddress env")
  case (Inl e)
  with assms show ?thesis
    by (intro exI [of _ "[\<lparr>step = Building,
              message = ''Building transaction to send 1 ADA to your own address...'',
              txHash = None\<rparr>]"])
       (simp add: sendToSelf_run sendToSelf_try_run submission_def)
next
  case addr: (Inr changeAddress)
  show ?thesis
  proof (cases "tx_build env changeAddress ''1000000''")
    case (Inl e)
    with assms addr show ?thesis
      by (intro exI [of _ "[\<lparr>step = Building,
              message = ''Building transaction to send 1 ADA to your own address...'',
              txHash = None\<rparr>]"])
         (simp add: sendToSelf_run sendToSelf_try_run submission_def)
  next
    case built: (Inr unsignedTx)
    show ?thesis
    proof (cases "wallet_signTx env unsignedTx")
      case (Inl e)
      with assms addr built show ?thesis
        by (intro exI [of _ "[\<lparr>step = Building,
              message = ''Building transaction to send 1 ADA to your own address...'',
              txHash = None\<rparr>,
            \<lparr>step = Signing,
              message = ''Please sign the transaction in your wallet...'',
              txHash = None\<rparr>]"])
           (simp add: sendToSelf_run sendToSelf_try_run submission_def)
    next
      case signed: (Inr signedTx)
      with assms addr built have "wallet_submitTx env signedTx = Inl err"
        by (simp add: submission_def)
      with assms addr built signed show ?thesis
        by (intro exI [of _ "[\<lparr>step = Building,
              message = ''Building transaction to send 1 ADA to your own address...'',
              txHash = None\<rparr>,
            \<lparr>step = Signing,
              message = ''Please sign the transaction in your wallet...'',
              txHash = None\<rparr>,
            \<lparr>step = Submitting,
              message = ''Submitting transaction to the Cardano testnet...'',
              txHash = None\<rparr>]"])
           (simp add: sendToSelf_run sendToSelf_try_run submission_def)
    qed
  qed
qed

lemma sendToSelf_succeeded:
  assumes "\<not> isTxRunning st" and "submission env = Inr hash"
  shows "\<exists>logged. sendToSelf True True env st =
           (SetIsTxRunning True #
            map SetTxStatus
              [\<lparr>step = Building,
                 message = ''Building transaction to send 1 ADA to your own address...'',
                 txHash = None\<rparr>,
               \<lparr>step = Signing,
                 message = ''Please sign the transaction in your wallet...'',
                 txHash = None\<rparr>,
               \<lparr>step = Submitting,
                 message = ''Submitting transaction to the Cardano testnet...'',
                 txHash = None\<rparr>,
               \<lparr>step = Confirming,
                 message = ''Transaction submitted! Waiting briefly before updating balance...'',
                 txHash = Some hash\<rparr>] @
            Delay 8000 # fst (getBalance True True env) @
            SetTxStatus \<lparr>step = Success, message = ''Transaction successful!'',
                         txHash = Some hash\<rparr> #
            logged @ [SetIsTxRunning False], Inr ())
         \<and> (\<exists>changeAddress. wallet_getChangeAddress env = Inr changeAddress \<and>
              logged = (case fetch env ''http://localhost:4000/api/transactions''
                             (hash, changeAddress, ''preprod'') of
                        Inl apiErr \<Rightarrow> [ConsoleError ''Failed to notify backend about transaction:'']
                      | Inr _ \<Rightarrow> []))"
  using assms
  by (auto simp: sendToSelf_run sendToSelf_try_run submission_def split: sum.splits)

subsection \<open>Statuses and states along a run\<close>

lemma statuses_of_simps [simp]:
  "statuses_of [] = []"
  "statuses_of (SetTxStatus s # evs) = s # statuses_of evs"
  "statuses_of (SetAddress a # evs) = statuses_of evs"
  "statuses_of (SetBalanceLovelace q # evs) = statuses_of evs"
  "statuses_of (SetIsLoadingBalance b # evs) = statuses_of evs"
  "statuses_of (SetIsTxRunning b # evs) = statuses_of evs"
  "statuses_of (ConsoleError m # evs) = statuses_of evs"
  "statuses_of (Delay n # evs) = statuses_of evs"
  by (simp_all add: statuses_of_def)

lemma statuses_of_append [simp]: "statuses_of (xs @ ys) = statuses_of xs @ statuses_of ys"
  by (simp add: statuses_of_def)

lemma statuses_of_map_SetTxStatus [simp]: "statuses_of (map SetTxStatus ss) = ss"
  by (induction ss) simp_all

lemma run_events_simps [simp]:
  "run_events st [] = st"
  "run_events st (ev # evs) = run_events (apply_event st ev) evs"
  "run_events st (xs @ ys) = run_events (run_events st xs) ys"
  by (simp_all add: run_events_def)

lemma txStatus_run_events:
  "txStatus (run_events st evs) =
     (if statuses_of evs = [] then txStatus st else last (statuses_of evs))"
proof (induction evs arbitrary: st)
  case Nil
  then show ?case by simp
next
  case (Cons ev evs)
  then show ?case by (cases ev) simp_all
qed

text \<open>Events that leave the running flag alone.\<close>

lemma isTxRunning_run_events:
  "\<forall>ev\<in>set evs. \<forall>b. ev \<noteq> SetIsTxRunning b \<Longrightarrow> isTxRunning (run_events st evs) = isTxRunning st"
proof (induction evs arbitrary: st)
  case Nil
  then show ?case by simp
next
  case (Cons ev evs)
  then show ?case by (cases ev) auto
qed

lemma getBalance_no_SetIsTxRunning:
  "ev \<in> set (fst (getBalance connected wallet env)) \<Longrightarrow> ev \<noteq> SetIsTxRunning b"
  by (cases connected; cases wallet)
     (auto simp: getBalance_run getBalance_skipped split: sum.splits)

text \<open>Once set, never cleared: a list of unset statuses followed by statuses with one hash.\<close>

lemma set_once:
  assumes "\<forall>s\<in>set a. txHash s = None" and "\<forall>s\<in>set b. txHash s = Some h"
    and "i \<le> j" and "j < length (a @ b)" and "txHash ((a @ b) ! i) \<noteq> None"
  shows "txHash ((a @ b) ! j) = txHash ((a @ b) ! i)"
proof -
  have "\<not> i < length a"
  proof
    assume "i < length a"
    then have "(a @ b) ! i \<in> set a" by (simp add: nth_append)
    with assms(1) have "txHash ((a @ b) ! i) = None" by simp
    with assms(5) show False by simp
  qed
  with assms(3,4) have "(a @ b) ! i \<in> set b" "(a @ b) ! j \<in> set b"
    by (simp_all add: nth_append)
  with assms(2) show ?thesis by simp
qed

lemma run_statuses_cases:
  "sendToSelf connected wallet env st = ([], Inr ())
   \<or> (\<exists>err pre. submission env = Inl err
         \<and> statuses_of (fst (sendToSelf connected wallet env st)) =
             pre @ [\<lparr>step = Error, message = error_message err, txHash = None\<rparr>]
         \<and> (\<forall>s\<in>set pre. txHash s = None \<and> step s \<in> {Building, Signing, Submitting}))
   \<or> (\<exists>hash m1 m2 m3 m4 m5. submission env = Inr hash
         \<and> statuses_of (fst (sendToSelf connected wallet env st)) =
             [\<lparr>step = Building, message = m1, txHash = None\<rparr>,
              \<lparr>step = Signing, message = m2, txHash = None\<rparr>,
              \<lparr>step = Submitting, message = m3, txHash = None\<rparr>] @
             [\<lparr>step = Confirming, message = m4, txHash = Some hash\<rparr>,
              \<lparr>step = Success, message = m5, txHash = Some hash\<rparr>])"
proof (cases "isTxRunning st \<or> \<not> connected \<or> \<not> wallet")
  case True
  then show ?thesis by (simp add: sendToSelf_skipped)
next
  case False
  then have g: "\<not> isTxRunning st" and cw: "connected = True" "wallet = True" by simp_all
  show ?thesis
  proof (cases "submission env")
    case (Inl err)
    from sendToSelf_failed [OF g Inl] obtain pre where
      "sendToSelf True True env st =
           (SetIsTxRunning True # map SetTxStatus pre @
              [ConsoleError ''Transaction error:'',
               SetTxStatus \<lparr>step = Error, message = error_message err, txHash = None\<rparr>,
               SetIsTxRunning False], Inr ())"
      and "\<forall>s\<in>set pre. txHash s = None \<and> step s \<in> {Building, Signing, Submitting}"
      by blast
    with Inl cw show ?thesis by simp
  next
    case (Inr hash)
    from sendToSelf_succeeded [OF g Inr] obtain logged where
      "sendToSelf True True env st =
           (SetIsTxRunning True #
            map SetTxStatus
              [\<lparr>step = Building,
                 message = ''Building transaction to send 1 ADA to your own address...'',
                 txHash = None\<rparr>,
               \<lparr>step = Signing,
                 message = ''Please sign the transaction in your wallet...'',
                 txHash = None\<rparr>,
               \<lparr>step = Submitting,
                 message = ''Submitting transaction to the Cardano testnet...'',
                 txHash = None\<rparr>,
               \<lparr>step = Confirming,
                 message = ''Transaction submitted! Waiting briefly before updating balance...'',
                 txHash = Some hash\<rparr>] @
            Delay 8000 # fst (getBalance True True env) @
            SetTxStatus \<lparr>step = Success, message = ''Transaction successful!'',
                         txHash = Some hash\<rparr> #
            logged @ [SetIsTxRunning False], Inr ())"
      and logged: "\<exists>changeAddress. logged =
                    (case fetch env ''http://localhost:4000/api/transactions''
                             (hash, changeAddress, ''preprod'') of
                        Inl apiErr \<Rightarrow> [ConsoleError ''Failed to notify backend about transaction:'']
                      | Inr _ \<Rightarrow> [])"
      by blast
    then have "statuses_of (fst (sendToSelf True True env st)) =
            [\<lparr>step = Building,
                 message = ''Building transaction to send 1 ADA to your own address...'',
                 txHash = None\<rparr>,
               \<lparr>step = Signing,
                 message = ''Please sign the transaction in your wallet...'',
                 txHash = None\<rparr>,
               \<lparr>step = Submitting,
                 message = ''Submitting transaction to the Cardano testnet...'',
                 txHash = None\<rparr>] @
              [\<lparr>step = Confirming,
                 message = ''Transaction submitted! Waiting briefly before updating balance...'',
                 txHash = Some hash\<rparr>,
             \<lparr>step = Success, message = ''Transaction successful!'',
                         txHash = Some hash\<rparr>] @ statuses_of logged"
      by (simp add: statuses_of_getBalance)
    moreover have "statuses_of logged = []"
    proof -
      from logged obtain changeAddress where l: "logged =
                    (case fetch env ''http://localhost:4000/api/transactions''
                             (hash, changeAddress, ''preprod'') of
                        Inl apiErr \<Rightarrow> [ConsoleError ''Failed to notify backend about transaction:'']
                      | Inr _ \<Rightarrow> [])" by blast
      show ?thesis
        by (cases "fetch env ''http://localhost:4000/api/transactions''
                             (hash, changeAddress, ''preprod'')") (simp_all add: l)
    qed
    ultimately show ?thesis using Inr cw by (intro disjI2) simp
  qed
qed

lemma all_unset:
  assumes "\<forall>s\<in>set ss. txHash s = None"
  shows "(\<forall>s\<in>set ss. step s \<in> {Building, Signing, Submitting} \<longrightarrow> txHash s = None)
    \<and> (\<forall>s\<in>set ss. \<forall>h. txHash s = Some h \<longrightarrow> P h)
    \<and> (\<forall>i j. i \<le> j \<and> j < length ss \<and> txHash (ss ! i) \<noteq> None
          \<longrightarrow> txHash (ss ! j) = txHash (ss ! i))
    \<and> (\<forall>i. i < length ss \<and> txHash (ss ! i) \<noteq> None \<and> (\<forall>k<i. txHash (ss ! k) = None)
          \<longrightarrow> step (ss ! i) = Confirming)"
proof -
  have nth_none: "txHash (ss ! i) = None" if "i < length ss" for i
    using assms that by simp
  have c1: "\<forall>s\<in>set ss. step s \<in> {Building, Signing, Submitting} \<longrightarrow> txHash s = None"
    using assms by simp
  have c2: "\<forall>s\<in>set ss. \<forall>h. txHash s = Some h \<longrightarrow> P h"
    using assms by simp
  have c3: "\<forall>i j. i \<le> j \<and> j < length ss \<and> txHash (ss ! i) \<noteq> None
          \<longrightarrow> txHash (ss ! j) = txHash (ss ! i)"
  proof (intro allI impI)
    fix i j assume h: "i \<le> j \<and> j < length ss \<and> txHash (ss ! i) \<noteq> None"
    then have "i < length ss" by simp
    with nth_none h show "txHash (ss ! j) = txHash (ss ! i)" by simp
  qed
  have c4: "\<forall>i. i < length ss \<and> txHash (ss ! i) \<noteq> None \<and> (\<forall>k<i. txHash (ss ! k) = None)
          \<longrightarrow> step (ss ! i) = Confirming"
  proof (intro allI impI)
    fix i
    assume h: "i < length ss \<and> txHash (ss ! i) \<noteq> None \<and> (\<forall>k<i. txHash (ss ! k) = None)"
    then have "i < length ss" by simp
    then have "txHash (ss ! i) = None" by (rule nth_none)
    with h show "step (ss ! i) = Confirming" by simp
  qed
  from c1 c2 c3 c4 show ?thesis by (intro conjI)
qed

lemma set_at_confirming:
  assumes ss: "ss = [\<lparr>step = Building, message = m1, txHash = None\<rparr>,
              \<lparr>step = Signing, message = m2, txHash = None\<rparr>,
              \<lparr>step = Submitting, message = m3, txHash = None\<rparr>] @
             [\<lparr>step = Confirming, message = m4, txHash = Some hash\<rparr>,
              \<lparr>step = Success, message = m5, txHash = Some hash\<rparr>]"
  shows "(\<forall>s\<in>set ss. step s \<in> {Building, Signing, Submitting} \<longrightarrow> txHash s = None)
    \<and> (\<forall>s\<in>set ss. \<forall>h. txHash s = Some h \<longrightarrow> h = hash)
    \<and> (\<forall>i j. i \<le> j \<and> j < length ss \<and> txHash (ss ! i) \<noteq> None
          \<longrightarrow> txHash (ss ! j) = txHash (ss ! i))
    \<and> (\<forall>i. i < length ss \<and> txHash (ss ! i) \<noteq> None \<and> (\<forall>k<i. txHash (ss ! k) = None)
          \<longrightarrow> step (ss ! i) = Confirming)
    \<and> step (last ss) = Success \<and> txHash (last ss) = Some hash"
proof -
  let ?a = "[\<lparr>step = Building, message = m1, txHash = None\<rparr>,
              \<lparr>step = Signing, message = m2, txHash = None\<rparr>,
              \<lparr>step = Submitting, message = m3, txHash = None\<rparr>]"
  let ?b = "[\<lparr>step = Confirming, message = m4, txHash = Some hash\<rparr>,
              \<lparr>step = Success, message = m5, txHash = Some hash\<rparr>]"
  have a: "\<forall>s\<in>set ?a. txHash s = None" and b: "\<forall>s\<in>set ?b. txHash s = Some hash"
    by simp_all
  have c1: "\<forall>s\<in>set ss. step s \<in> {Building, Signing, Submitting} \<longrightarrow> txHash s = None"
    unfolding ss by simp
  have c2: "\<forall>s\<in>set ss. \<forall>h. txHash s = Some h \<longrightarrow> h = hash"
    unfolding ss by simp
  have c3: "\<forall>i j. i \<le> j \<and> j < length ss \<and> txHash (ss ! i) \<noteq> None
          \<longrightarrow> txHash (ss ! j) = txHash (ss ! i)"
  proof (intro allI impI)
    fix i j assume h: "i \<le> j \<and> j < length ss \<and> txHash (ss ! i) \<noteq> None"
    then have hi: "i \<le> j" and hj: "j < length ss" and hn: "txHash (ss ! i) \<noteq> None"
      by simp_all
    from hi hj hn show "txHash (ss ! j) = txHash (ss ! i)"
      unfolding ss by (rule set_once [OF a b])
  qed
  have n3: "txHash (ss ! 3) \<noteq> None"
    and n012: "txHash (ss ! 0) = None" "txHash (ss ! 1) = None" "txHash (ss ! 2) = None"
    unfolding ss by simp_all
  have c4: "\<forall>i. i < length ss \<and> txHash (ss ! i) \<noteq> None \<and> (\<forall>k<i. txHash (ss ! k) = None)
          \<longrightarrow> step (ss ! i) = Confirming"
  proof (intro allI impI)
    fix i
    assume h: "i < length ss \<and> txHash (ss ! i) \<noteq> None \<and> (\<forall>k<i. txHash (ss ! k) = None)"
    then have unset: "\<forall>k<i. txHash (ss ! k) = None" and seti: "txHash (ss ! i) \<noteq> None"
      by simp_all
    have "\<not> 3 < i"
    proof
      assume "3 < i"
      with unset have "txHash (ss ! 3) = None" by simp
      with n3 show False by simp
    qed
    then have "i = 0 \<or> i = 1 \<or> i = 2 \<or> i = 3" by arith
    with n012 seti have "i = 3" by (elim disjE) simp_all
    then show "step (ss ! i) = Confirming" unfolding ss by simp
  qed
  have c5a: "step (last ss) = Success" and c5b: "txHash (last ss) = Some hash"
    unfolding ss by simp_all
  from c1 c2 c3 c4 c5a c5b show ?thesis by (intro conjI)
qed

subsection \<open>The transaction hash of the status\<close>

text \<open>
  C2. Let \<open>ss\<close> be the statuses that one invocation of \<open>sendToSelf\<close> sets, in order. In the
  steps building, signing and submitting \<open>txHash\<close> is null, and a \<open>txHash\<close> that is set is the
  hash that \<open>submitTx\<close> returned, so it is null as long as submission has not succeeded. Once
  a status carries a hash, every later status of the run carries the same hash; the first
  status that carries one is the confirming status. A run that ends in the error step leaves
  \<open>txHash\<close> null in the state, and then submission did not succeed: nothing fails after it.
\<close>

theorem txHash_null_until_submitted:
  assumes "ss = statuses_of (fst (sendToSelf connected wallet env st))"
  shows "(\<forall>s\<in>set ss. step s \<in> {Building, Signing, Submitting} \<longrightarrow> txHash s = None)
    \<and> (\<forall>s\<in>set ss. \<forall>h. txHash s = Some h \<longrightarrow> submission env = Inr h)
    \<and> (\<forall>i j. i \<le> j \<and> j < length ss \<and> txHash (ss ! i) \<noteq> None
          \<longrightarrow> txHash (ss ! j) = txHash (ss ! i))
    \<and> (\<forall>i. i < length ss \<and> txHash (ss ! i) \<noteq> None \<and> (\<forall>k<i. txHash (ss ! k) = None)
          \<longrightarrow> step (ss ! i) = Confirming)
    \<and> (ss \<noteq> [] \<and> step (last ss) = Error
          \<longrightarrow> txHash (txStatus (state_after st (sendToSelf connected wallet env st))) = None
              \<and> (\<exists>err. submission env = Inl err))"
proof -
  let ?run = "sendToSelf connected wallet env st"
  have final: "txStatus (state_after st ?run) = last ss" if "ss \<noteq> []"
    using assms that by (simp add: state_after_def txStatus_run_events)
  from run_statuses_cases [of connected wallet env st]
  show ?thesis
  proof (elim disjE exE conjE)
    assume "?run = ([], Inr ())"
    with assms have "ss = []" by simp
    then show ?thesis by simp
  next
    fix err pre
    assume sub: "submission env = Inl err"
      and run: "statuses_of (fst ?run) =
                  pre @ [\<lparr>step = Error, message = error_message err, txHash = None\<rparr>]"
      and pre: "\<forall>s\<in>set pre. txHash s = None \<and> step s \<in> {Building, Signing, Submitting}"
    from run assms have ss: "ss = pre @ [\<lparr>step = Error, message = error_message err, txHash = None\<rparr>]"
      by simp
    with pre have none: "\<forall>s\<in>set ss. txHash s = None" by simp
    from ss have "ss \<noteq> []" and "txHash (last ss) = None" by simp_all
    with final have "txHash (txStatus (state_after st ?run)) = None" by simp
    with sub have c5: "ss \<noteq> [] \<and> step (last ss) = Error
          \<longrightarrow> txHash (txStatus (state_after st ?run)) = None
              \<and> (\<exists>err. submission env = Inl err)" by simp
    note shape = all_unset [OF none, of "\<lambda>h. submission env = Inr h"]
    from shape have c1: "\<forall>s\<in>set ss. step s \<in> {Building, Signing, Submitting} \<longrightarrow> txHash s = None"
      by (rule conjunct1)
    from shape have c2: "\<forall>s\<in>set ss. \<forall>h. txHash s = Some h \<longrightarrow> submission env = Inr h"
      by (elim conjE)
    from shape have c3: "\<forall>i j. i \<le> j \<and> j < length ss \<and> txHash (ss ! i) \<noteq> None
          \<longrightarrow> txHash (ss ! j) = txHash (ss ! i)"
      by (elim conjE)
    from shape have c4: "\<forall>i. i < length ss \<and> txHash (ss ! i) \<noteq> None \<and> (\<forall>k<i. txHash (ss ! k) = None)
          \<longrightarrow> step (ss ! i) = Confirming"
      by (elim conjE)
    from c1 c2 c3 c4 c5 show ?thesis by (intro conjI)
  next
    fix hash m1 m2 m3 m4 m5
    assume sub: "submission env = Inr hash"
      and run: "statuses_of (fst ?run) =
             [\<lparr>step = Building, message = m1, txHash = None\<rparr>,
              \<lparr>step = Signing, message = m2, txHash = None\<rparr>,
              \<lparr>step = Submitting, message = m3, txHash = None\<rparr>] @
             [\<lparr>step = Confirming, message = m4, txHash = Some hash\<rparr>,
              \<lparr>step = Success, message = m5, txHash = Some hash\<rparr>]"
    from run assms have ss: "ss =
             [\<lparr>step = Building, message = m1, txHash = None\<rparr>,
              \<lparr>step = Signing, message = m2, txHash = None\<rparr>,
              \<lparr>step = Submitting, message = m3, txHash = None\<rparr>] @
             [\<lparr>step = Confirming, message = m4, txHash = Some hash\<rparr>,
              \<lparr>step = Success, message = m5, txHash = Some hash\<rparr>]"
      by simp
    note shape = set_at_confirming [OF ss]
    from shape have c1: "\<forall>s\<in>set ss. step s \<in> {Building, Signing, Submitting} \<longrightarrow> txHash s = None"
      by (rule conjunct1)
    from shape have "\<forall>s\<in>set ss. \<forall>h. txHash s = Some h \<longrightarrow> h = hash"
      by (elim conjE)
    with sub have c2: "\<forall>s\<in>set ss. \<forall>h. txHash s = Some h \<longrightarrow> submission env = Inr h"
      by simp
    from shape have c3: "\<forall>i j. i \<le> j \<and> j < length ss \<and> txHash (ss ! i) \<noteq> None
          \<longrightarrow> txHash (ss ! j) = txHash (ss ! i)"
      by (elim conjE)
    from shape have c4: "\<forall>i. i < length ss \<and> txHash (ss ! i) \<noteq> None \<and> (\<forall>k<i. txHash (ss ! k) = None)
          \<longrightarrow> step (ss ! i) = Confirming"
      by (elim conjE)
    from shape have "step (last ss) = Success" by (elim conjE)
    then have c5: "ss \<noteq> [] \<and> step (last ss) = Error
          \<longrightarrow> txHash (txStatus (state_after st ?run)) = None
              \<and> (\<exists>err. submission env = Inl err)" by simp
    from c1 c2 c3 c4 c5 show ?thesis by (intro conjI)
  qed
qed

text \<open>
  The theorem at two runs from the idle card: with the willing wallet the status at index 3
  is the confirming one, carries the hash, and the status after it carries the same hash;
  with the declining wallet the run ends in the error step and leaves \<open>txHash\<close> null.
\<close>

theorem txHash_null_until_submitted_witness:
  "txHash (statuses_of (fst (sendToSelf True True willing_env idle_state)) ! 4) =
     txHash (statuses_of (fst (sendToSelf True True willing_env idle_state)) ! 3)
   \<and> txHash (statuses_of (fst (sendToSelf True True willing_env idle_state)) ! 3) \<noteq> None
   \<and> step (statuses_of (fst (sendToSelf True True willing_env idle_state)) ! 3) = Confirming
   \<and> step (last (statuses_of (fst (sendToSelf True True declining_env idle_state)))) = Error
   \<and> txHash (txStatus (state_after idle_state
                (sendToSelf True True declining_env idle_state))) = None"
proof -
  let ?ok = "statuses_of (fst (sendToSelf True True willing_env idle_state))"
  let ?bad = "statuses_of (fst (sendToSelf True True declining_env idle_state))"
  let ?view = "\<lambda>s. (step s, txHash s)"
  have ok_run: "map ?view ?ok =
      [(Building, None), (Signing, None), (Submitting, None),
       (Confirming, Some ''hash1''), (Success, Some ''hash1'')]"
    by code_simp
  have bad_run: "map ?view ?bad = [(Building, None), (Signing, None), (Error, None)]"
    by code_simp
  have len_ok: "length ?ok = 5" using arg_cong [OF ok_run, of length] by simp
  have len_bad: "length ?bad = 3" using arg_cong [OF bad_run, of length] by simp
  have at: "?view (?ok ! k) =
      [(Building, None), (Signing, None), (Submitting, None),
       (Confirming, Some ''hash1''), (Success, Some ''hash1'')] ! k" if "k < 5" for k
    using that nth_map [of k ?ok ?view] by (simp only: len_ok ok_run)
  have set3: "txHash (?ok ! 3) \<noteq> None" using at [of 3] by simp
  have before: "\<forall>k<3. txHash (?ok ! k) = None"
  proof (intro allI impI)
    fix k :: nat assume "k < 3"
    then have "k = 0 \<or> k = 1 \<or> k = 2" by arith
    with at [of 0] at [of 1] at [of 2] show "txHash (?ok ! k) = None"
      by (elim disjE) simp_all
  qed
  have nonempty: "?bad \<noteq> []" using len_bad by auto
  have "?view (last ?bad) = last (map ?view ?bad)"
    using nonempty by (simp add: last_map)
  then have d: "step (last ?bad) = Error" by (simp add: bad_run)
  note ok = txHash_null_until_submitted [OF refl, of True True willing_env idle_state]
  note bad = txHash_null_until_submitted [OF refl, of True True declining_env idle_state]
  from ok have mono: "\<forall>i j. i \<le> j \<and> j < length ?ok \<and> txHash (?ok ! i) \<noteq> None
          \<longrightarrow> txHash (?ok ! j) = txHash (?ok ! i)"
    by (elim conjE)
  have "(3::nat) \<le> 4" and "4 < length ?ok" by (simp_all add: len_ok)
  with set3 have "(3::nat) \<le> 4 \<and> 4 < length ?ok \<and> txHash (?ok ! 3) \<noteq> None"
    by (intro conjI)
  with mono [rule_format, of 3 4] have a: "txHash (?ok ! 4) = txHash (?ok ! 3)" .
  from ok have first: "\<forall>i. i < length ?ok \<and> txHash (?ok ! i) \<noteq> None \<and> (\<forall>k<i. txHash (?ok ! k) = None)
          \<longrightarrow> step (?ok ! i) = Confirming"
    by (elim conjE)
  have "3 < length ?ok" by (simp add: len_ok)
  with set3 before have "3 < length ?ok \<and> txHash (?ok ! 3) \<noteq> None \<and> (\<forall>k<3. txHash (?ok ! k) = None)"
    by (intro conjI)
  with first [rule_format, of 3] have b: "step (?ok ! 3) = Confirming" .
  from bad have fails: "?bad \<noteq> [] \<and> step (last ?bad) = Error
          \<longrightarrow> txHash (txStatus (state_after idle_state
                  (sendToSelf True True declining_env idle_state))) = None
              \<and> (\<exists>err. submission declining_env = Inl err)"
    by (elim conjE)
  from nonempty d have "?bad \<noteq> [] \<and> step (last ?bad) = Error" by (intro conjI)
  with fails have "txHash (txStatus (state_after idle_state
                  (sendToSelf True True declining_env idle_state))) = None
              \<and> (\<exists>err. submission declining_env = Inl err)" by (rule mp)
  then have c: "txHash (txStatus (state_after idle_state
                  (sendToSelf True True declining_env idle_state))) = None" by (rule conjunct1)
  from a set3 b d c show ?thesis by (intro conjI)
qed

subsection \<open>The running flag\<close>

lemma run_events_logged:
  "logged = (case outcome of Inl apiErr \<Rightarrow> [ConsoleError m] | Inr _ \<Rightarrow> []) \<Longrightarrow>
   run_events st logged = st \<and> statuses_of logged = [] \<and> (\<forall>ev\<in>set logged. \<forall>b. ev \<noteq> SetIsTxRunning b)"
  by (cases outcome) simp_all

lemma sendToSelf_flag_events:
  assumes "\<not> isTxRunning st"
  shows "\<exists>mid. sendToSelf True True env st =
                 (SetIsTxRunning True # mid @ [SetIsTxRunning False], Inr ())
               \<and> (\<forall>ev\<in>set mid. \<forall>b. ev \<noteq> SetIsTxRunning b)"
proof (cases "submission env")
  case (Inl err)
  from sendToSelf_failed [OF assms Inl] obtain pre where
    run: "sendToSelf True True env st =
           (SetIsTxRunning True # map SetTxStatus pre @
              [ConsoleError ''Transaction error:'',
               SetTxStatus \<lparr>step = Error, message = error_message err, txHash = None\<rparr>,
               SetIsTxRunning False], Inr ())"
    by blast
  let ?mid = "map SetTxStatus pre @
              [ConsoleError ''Transaction error:'',
               SetTxStatus \<lparr>step = Error, message = error_message err, txHash = None\<rparr>]"
  have "sendToSelf True True env st = (SetIsTxRunning True # ?mid @ [SetIsTxRunning False], Inr ())"
    using run by simp
  moreover have "\<forall>ev\<in>set ?mid. \<forall>b. ev \<noteq> SetIsTxRunning b" by auto
  ultimately show ?thesis by (intro exI [of _ ?mid] conjI)
next
  case (Inr hash)
  from sendToSelf_succeeded [OF assms Inr] obtain logged changeAddress where
    run: "sendToSelf True True env st =
           (SetIsTxRunning True #
            map SetTxStatus
              [\<lparr>step = Building,
                 message = ''Building transaction to send 1 ADA to your own address...'',
                 txHash = None\<rparr>,
               \<lparr>step = Signing,
                 message = ''Please sign the transaction in your wallet...'',
                 txHash = None\<rparr>,
               \<lparr>step = Submitting,
                 message = ''Submitting transaction to the Cardano testnet...'',
                 txHash = None\<rparr>,
               \<lparr>step = Confirming,
                 message = ''Transaction submitted! Waiting briefly before updating balance...'',
                 txHash = Some hash\<rparr>] @
            Delay 8000 # fst (getBalance True True env) @
            SetTxStatus \<lparr>step = Success, message = ''Transaction successful!'',
                         txHash = Some hash\<rparr> #
            logged @ [SetIsTxRunning False], Inr ())"
    and logged: "logged = (case fetch env ''http://localhost:4000/api/transactions''
                             (hash, changeAddress, ''preprod'') of
                        Inl apiErr \<Rightarrow> [ConsoleError ''Failed to notify backend about transaction:'']
                      | Inr _ \<Rightarrow> [])"
    by blast
  let ?mid = "map SetTxStatus
              [\<lparr>step = Building,
                 message = ''Building transaction to send 1 ADA to your own address...'',
                 txHash = None\<rparr>,
               \<lparr>step = Signing,
                 message = ''Please sign the transaction in your wallet...'',
                 txHash = None\<rparr>,
               \<lparr>step = Submitting,
                 message = ''Submitting transaction to the Cardano testnet...'',
                 txHash = None\<rparr>,
               \<lparr>step = Confirming,
                 message = ''Transaction submitted! Waiting briefly before updating balance...'',
                 txHash = Some hash\<rparr>] @
            Delay 8000 # fst (getBalance True True env) @
            SetTxStatus \<lparr>step = Success, message = ''Transaction successful!'',
                         txHash = Some hash\<rparr> # logged"
  have "sendToSelf True True env st = (SetIsTxRunning True # ?mid @ [SetIsTxRunning False], Inr ())"
    using run by simp
  moreover have "\<forall>ev\<in>set ?mid. \<forall>b. ev \<noteq> SetIsTxRunning b"
    using run_events_logged [OF logged] getBalance_no_SetIsTxRunning [of _ True True env]
    by auto
  ultimately show ?thesis by (intro exI [of _ ?mid] conjI)
qed

lemma run_between_flags:
  assumes "\<forall>ev\<in>set mid. \<forall>b. ev \<noteq> SetIsTxRunning b"
  shows "isTxRunning (run_events st (SetIsTxRunning True # take k mid))"
proof -
  have "\<forall>ev\<in>set (take k mid). \<forall>b. ev \<noteq> SetIsTxRunning b"
    using assms by (meson in_set_takeD)
  then have "isTxRunning (run_events (apply_event st (SetIsTxRunning True)) (take k mid)) =
               isTxRunning (apply_event st (SetIsTxRunning True))"
    by (rule isTxRunning_run_events)
  then show ?thesis by simp
qed

text \<open>
  C3. An invocation of \<open>sendToSelf\<close> that sees \<open>isTxRunning\<close> true does nothing: no event,
  the state unchanged. An invocation that sees it false ends with the flag false and with
  its promise fulfilled, whatever the wallet and the collector do. When it passes the guard
  (connected, wallet present), the run sets the flag first and clears it last, the flag is
  true after every event in between, and a later invocation on the state it leaves passes
  the guard again.
\<close>

theorem sendToSelf_single_flight:
  "(isTxRunning st \<longrightarrow>
      sendToSelf connected wallet env st = ([], Inr ())
      \<and> state_after st (sendToSelf connected wallet env st) = st)
   \<and> (\<not> isTxRunning st \<longrightarrow>
        \<not> isTxRunning (state_after st (sendToSelf connected wallet env st))
        \<and> snd (sendToSelf connected wallet env st) = Inr ())
   \<and> (\<not> isTxRunning st \<and> connected \<and> wallet \<longrightarrow>
        (\<exists>mid. fst (sendToSelf connected wallet env st) =
                 SetIsTxRunning True # mid @ [SetIsTxRunning False]
               \<and> (\<forall>k. isTxRunning (run_events st (SetIsTxRunning True # take k mid))))
        \<and> fst (sendToSelf connected wallet env'
                 (state_after st (sendToSelf connected wallet env st))) \<noteq> [])"
proof (intro conjI impI)
  assume "isTxRunning st"
  then show "sendToSelf connected wallet env st = ([], Inr ())"
    by (simp add: sendToSelf_skipped)
  then show "state_after st (sendToSelf connected wallet env st) = st"
    by (simp add: state_after_def)
next
  assume idle: "\<not> isTxRunning st"
  show "\<not> isTxRunning (state_after st (sendToSelf connected wallet env st))"
  proof (cases "connected \<and> wallet")
    case True
    from sendToSelf_flag_events [OF idle, of env] obtain mid where
      "sendToSelf True True env st = (SetIsTxRunning True # mid @ [SetIsTxRunning False], Inr ())"
      by blast
    with True show ?thesis by (simp add: state_after_def)
  next
    case False
    then have "sendToSelf connected wallet env st = ([], Inr ())"
      by (simp add: sendToSelf_skipped)
    with idle show ?thesis by (simp add: state_after_def)
  qed
  show "snd (sendToSelf connected wallet env st) = Inr ()"
  proof (cases "connected \<and> wallet")
    case True
    from sendToSelf_flag_events [OF idle, of env] obtain mid where
      "sendToSelf True True env st = (SetIsTxRunning True # mid @ [SetIsTxRunning False], Inr ())"
      by blast
    with True show ?thesis by simp
  next
    case False
    then show ?thesis by (simp add: sendToSelf_skipped)
  qed
next
  assume h: "\<not> isTxRunning st \<and> connected \<and> wallet"
  then have idle: "\<not> isTxRunning st" and cw: "connected = True" "wallet = True" by simp_all
  from sendToSelf_flag_events [OF idle, of env] obtain mid where
    run: "sendToSelf True True env st = (SetIsTxRunning True # mid @ [SetIsTxRunning False], Inr ())"
    and mid: "\<forall>ev\<in>set mid. \<forall>b. ev \<noteq> SetIsTxRunning b"
    by blast
  have "\<forall>k. isTxRunning (run_events st (SetIsTxRunning True # take k mid))"
    using run_between_flags [OF mid] by blast
  with run cw
  show "\<exists>mid. fst (sendToSelf connected wallet env st) =
                 SetIsTxRunning True # mid @ [SetIsTxRunning False]
               \<and> (\<forall>k. isTxRunning (run_events st (SetIsTxRunning True # take k mid)))"
    by (intro exI [of _ mid]) simp
  let ?after = "state_after st (sendToSelf connected wallet env st)"
  have released: "\<not> isTxRunning ?after"
    using run cw by (simp add: state_after_def)
  from sendToSelf_flag_events [OF released, of env'] obtain mid' where
    "sendToSelf True True env' ?after = (SetIsTxRunning True # mid' @ [SetIsTxRunning False], Inr ())"
    by blast
  with cw show "fst (sendToSelf connected wallet env' ?after) \<noteq> []" by simp
qed

text \<open>
  The theorem at the idle card with the flag set (nothing happens), and at a run with the
  declining wallet (the error path): the flag is released and the next invocation starts.
\<close>

theorem sendToSelf_single_flight_witness:
  "sendToSelf True True willing_env (idle_state\<lparr>isTxRunning := True\<rparr>) = ([], Inr ())
   \<and> \<not> isTxRunning (state_after idle_state (sendToSelf True True declining_env idle_state))
   \<and> snd (sendToSelf True True declining_env idle_state) = Inr ()
   \<and> fst (sendToSelf True True willing_env
             (state_after idle_state (sendToSelf True True declining_env idle_state))) \<noteq> []"
proof -
  have running: "isTxRunning (idle_state\<lparr>isTxRunning := True\<rparr>)" by simp
  have idle: "\<not> isTxRunning idle_state" by (simp add: idle_state_def)
  note busy = sendToSelf_single_flight
    [of "idle_state\<lparr>isTxRunning := True\<rparr>" True True willing_env willing_env]
  note free = sendToSelf_single_flight [of idle_state True True declining_env willing_env]
  from busy have "isTxRunning (idle_state\<lparr>isTxRunning := True\<rparr>) \<longrightarrow>
      sendToSelf True True willing_env (idle_state\<lparr>isTxRunning := True\<rparr>) = ([], Inr ())
      \<and> state_after (idle_state\<lparr>isTxRunning := True\<rparr>)
            (sendToSelf True True willing_env (idle_state\<lparr>isTxRunning := True\<rparr>)) =
          idle_state\<lparr>isTxRunning := True\<rparr>"
    by (rule conjunct1)
  with running have a: "sendToSelf True True willing_env (idle_state\<lparr>isTxRunning := True\<rparr>) = ([], Inr ())"
    by simp
  from free idle
  have b: "\<not> isTxRunning (state_after idle_state (sendToSelf True True declining_env idle_state))"
    and c: "snd (sendToSelf True True declining_env idle_state) = Inr ()"
    and d: "fst (sendToSelf True True willing_env
             (state_after idle_state (sendToSelf True True declining_env idle_state))) \<noteq> []"
    by simp_all
  from a b c d show ?thesis by (intro conjI)
qed

subsection \<open>The persistence notification\<close>

lemma submission_fetch_update [simp]: "submission (env\<lparr>fetch := f\<rparr>) = submission env"
  by (simp add: submission_def split: sum.splits)

lemma getBalance_fetch_update [simp]:
  "getBalance connected wallet (env\<lparr>fetch := f\<rparr>) = getBalance connected wallet env"
  by (simp add: getBalance_def)

text \<open>The state after a run that submitted: the notification leaves no trace in it.\<close>

lemma sendToSelf_success_state:
  assumes "\<not> isTxRunning st" and "submission env = Inr hash"
  shows "state_after st (sendToSelf True True env st) =
           run_events st
             (SetIsTxRunning True #
              map SetTxStatus
                [\<lparr>step = Building,
                   message = ''Building transaction to send 1 ADA to your own address...'',
                   txHash = None\<rparr>,
                 \<lparr>step = Signing,
                   message = ''Please sign the transaction in your wallet...'',
                   txHash = None\<rparr>,
                 \<lparr>step = Submitting,
                   message = ''Submitting transaction to the Cardano testnet...'',
                   txHash = None\<rparr>,
                 \<lparr>step = Confirming,
                   message = ''Transaction submitted! Waiting briefly before updating balance...'',
                   txHash = Some hash\<rparr>] @
              Delay 8000 # fst (getBalance True True env) @
              [SetTxStatus \<lparr>step = Success, message = ''Transaction successful!'',
                            txHash = Some hash\<rparr>,
               SetIsTxRunning False])"
proof -
  from sendToSelf_succeeded [OF assms] obtain logged changeAddress where
    run: "sendToSelf True True env st =
           (SetIsTxRunning True #
            map SetTxStatus
              [\<lparr>step = Building,
                 message = ''Building transaction to send 1 ADA to your own address...'',
                 txHash = None\<rparr>,
               \<lparr>step = Signing,
                 message = ''Please sign the transaction in your wallet...'',
                 txHash = None\<rparr>,
               \<lparr>step = Submitting,
                 message = ''Submitting transaction to the Cardano testnet...'',
                 txHash = None\<rparr>,
               \<lparr>step = Confirming,
                 message = ''Transaction submitted! Waiting briefly before updating balance...'',
                 txHash = Some hash\<rparr>] @
            Delay 8000 # fst (getBalance True True env) @
            SetTxStatus \<lparr>step = Success, message = ''Transaction successful!'',
                         txHash = Some hash\<rparr> #
            logged @ [SetIsTxRunning False], Inr ())"
    and logged: "logged = (case fetch env ''http://localhost:4000/api/transactions''
                             (hash, changeAddress, ''preprod'') of
                        Inl apiErr \<Rightarrow> [ConsoleError ''Failed to notify backend about transaction:'']
                      | Inr _ \<Rightarrow> [])"
    by blast
  have quiet: "run_events s logged = s" for s
    using run_events_logged [OF logged] by blast
  show ?thesis
    by (simp add: run state_after_def quiet)
qed

lemma sendToSelf_notification_logged:
  assumes "\<not> isTxRunning st" and "submission env = Inr hash"
    and "wallet_getChangeAddress env = Inr changeAddress"
    and "fetch env ''http://localhost:4000/api/transactions''
           (hash, changeAddress, ''preprod'') = Inl err"
  shows "ConsoleError ''Failed to notify backend about transaction:''
           \<in> set (fst (sendToSelf True True env st))"
  using sendToSelf_succeeded [OF assms(1,2)] assms(3,4) by auto

lemma success_status_submitted:
  assumes "s \<in> set (statuses_of (fst (sendToSelf connected wallet env st)))"
    and "step s = Success"
  shows "\<exists>hash. submission env = Inr hash \<and> \<not> isTxRunning st \<and> connected \<and> wallet
           \<and> s = \<lparr>step = Success, message = ''Transaction successful!'', txHash = Some hash\<rparr>"
proof (cases "isTxRunning st \<or> \<not> connected \<or> \<not> wallet")
  case True
  then have "sendToSelf connected wallet env st = ([], Inr ())" by (rule sendToSelf_skipped)
  with assms(1) show ?thesis by simp
next
  case False
  then have idle: "\<not> isTxRunning st" and cw: "connected = True" "wallet = True" by simp_all
  show ?thesis
  proof (cases "submission env")
    case (Inl err)
    from sendToSelf_failed [OF idle Inl] obtain pre where
      run: "sendToSelf True True env st =
           (SetIsTxRunning True # map SetTxStatus pre @
              [ConsoleError ''Transaction error:'',
               SetTxStatus \<lparr>step = Error, message = error_message err, txHash = None\<rparr>,
               SetIsTxRunning False], Inr ())"
      and pre: "\<forall>s\<in>set pre. txHash s = None \<and> step s \<in> {Building, Signing, Submitting}"
      by blast
    have "statuses_of (fst (sendToSelf True True env st)) =
            pre @ [\<lparr>step = Error, message = error_message err, txHash = None\<rparr>]"
      by (simp add: run)
    with assms(1)
    have "s \<in> set pre \<or> s = \<lparr>step = Error, message = error_message err, txHash = None\<rparr>"
      unfolding cw by auto
    then have "step s \<noteq> Success"
    proof
      assume "s \<in> set pre"
      with pre have "step s \<in> {Building, Signing, Submitting}" by simp
      then show ?thesis by auto
    next
      assume "s = \<lparr>step = Error, message = error_message err, txHash = None\<rparr>"
      then show ?thesis by simp
    qed
    with assms(2) show ?thesis by simp
  next
    case (Inr hash)
    from sendToSelf_succeeded [OF idle Inr] obtain logged changeAddress where
      run: "sendToSelf True True env st =
           (SetIsTxRunning True #
            map SetTxStatus
              [\<lparr>step = Building,
                 message = ''Building transaction to send 1 ADA to your own address...'',
                 txHash = None\<rparr>,
               \<lparr>step = Signing,
                 message = ''Please sign the transaction in your wallet...'',
                 txHash = None\<rparr>,
               \<lparr>step = Submitting,
                 message = ''Submitting transaction to the Cardano testnet...'',
                 txHash = None\<rparr>,
               \<lparr>step = Confirming,
                 message = ''Transaction submitted! Waiting briefly before updating balance...'',
                 txHash = Some hash\<rparr>] @
            Delay 8000 # fst (getBalance True True env) @
            SetTxStatus \<lparr>step = Success, message = ''Transaction successful!'',
                         txHash = Some hash\<rparr> #
            logged @ [SetIsTxRunning False], Inr ())"
      and logged: "logged = (case fetch env ''http://localhost:4000/api/transactions''
                             (hash, changeAddress, ''preprod'') of
                        Inl apiErr \<Rightarrow> [ConsoleError ''Failed to notify backend about transaction:'']
                      | Inr _ \<Rightarrow> [])"
      by blast
    have quiet: "statuses_of logged = []"
      using run_events_logged [OF logged] by blast
    have sts: "statuses_of (fst (sendToSelf True True env st)) =
              [\<lparr>step = Building,
                 message = ''Building transaction to send 1 ADA to your own address...'',
                 txHash = None\<rparr>,
               \<lparr>step = Signing,
                 message = ''Please sign the transaction in your wallet...'',
                 txHash = None\<rparr>,
               \<lparr>step = Submitting,
                 message = ''Submitting transaction to the Cardano testnet...'',
                 txHash = None\<rparr>,
               \<lparr>step = Confirming,
                 message = ''Transaction submitted! Waiting briefly before updating balance...'',
                 txHash = Some hash\<rparr>,
               \<lparr>step = Success, message = ''Transaction successful!'',
                         txHash = Some hash\<rparr>]"
      by (simp add: run quiet statuses_of_getBalance)
    from assms(1) have "s \<in> set (statuses_of (fst (sendToSelf True True env st)))"
      unfolding cw .
    then have "step s = Building \<or> step s = Signing \<or> step s = Submitting
          \<or> step s = Confirming
          \<or> s = \<lparr>step = Success, message = ''Transaction successful!'', txHash = Some hash\<rparr>"
      unfolding sts by (elim set_ConsD [elim_format] disjE) simp_all
    with assms(2)
    have "s = \<lparr>step = Success, message = ''Transaction successful!'', txHash = Some hash\<rparr>"
      by (elim disjE) simp_all
    moreover from idle cw have "\<not> isTxRunning st \<and> connected \<and> wallet" by simp
    ultimately show ?thesis using Inr by (intro exI [of _ hash] conjI) simp_all
  qed
qed

text \<open>
  C8. When a run of \<open>sendToSelf\<close> has set the success status \<open>s\<close>, its promise is fulfilled
  and \<open>s\<close> is the status of the state it leaves, with the hash that \<open>submitTx\<close> returned.
  The state it leaves is the same for every behaviour \<open>f\<close> of \<open>fetch\<close>, and when \<open>fetch\<close>
  rejects, the failure is logged with \<open>console.error\<close>.
\<close>

theorem notification_failure_swallowed:
  assumes "s \<in> set (statuses_of (fst (sendToSelf connected wallet env st)))"
    and "step s = Success"
  shows "snd (sendToSelf connected wallet env st) = Inr ()
    \<and> txStatus (state_after st (sendToSelf connected wallet env st)) = s
    \<and> (\<exists>hash. txHash s = Some hash \<and> submission env = Inr hash)
    \<and> state_after st (sendToSelf connected wallet (env\<lparr>fetch := f\<rparr>) st) =
        state_after st (sendToSelf connected wallet env st)
    \<and> (\<forall>changeAddress hash err.
          wallet_getChangeAddress env = Inr changeAddress \<and> txHash s = Some hash
          \<and> fetch env ''http://localhost:4000/api/transactions''
                (hash, changeAddress, ''preprod'') = Inl err
          \<longrightarrow> ConsoleError ''Failed to notify backend about transaction:''
                \<in> set (fst (sendToSelf connected wallet env st)))"
proof -
  from success_status_submitted [OF assms] obtain hash where
    sub: "submission env = Inr hash" and idle: "\<not> isTxRunning st"
    and cw: "connected = True" "wallet = True"
    and s: "s = \<lparr>step = Success, message = ''Transaction successful!'', txHash = Some hash\<rparr>"
    by auto
  have sub': "submission (env\<lparr>fetch := f\<rparr>) = Inr hash" using sub by simp
  have c1: "snd (sendToSelf connected wallet env st) = Inr ()"
    using sendToSelf_flag_events [OF idle, of env] cw by auto
  have c2: "txStatus (state_after st (sendToSelf connected wallet env st)) = s"
    unfolding cw sendToSelf_success_state [OF idle sub] s
    by (simp add: txStatus_run_events)
  have c3: "\<exists>hash. txHash s = Some hash \<and> submission env = Inr hash"
    using s sub by simp
  have c4: "state_after st (sendToSelf connected wallet (env\<lparr>fetch := f\<rparr>) st) =
        state_after st (sendToSelf connected wallet env st)"
    unfolding cw sendToSelf_success_state [OF idle sub] sendToSelf_success_state [OF idle sub']
    by simp
  have c5: "\<forall>changeAddress hash err.
          wallet_getChangeAddress env = Inr changeAddress \<and> txHash s = Some hash
          \<and> fetch env ''http://localhost:4000/api/transactions''
                (hash, changeAddress, ''preprod'') = Inl err
          \<longrightarrow> ConsoleError ''Failed to notify backend about transaction:''
                \<in> set (fst (sendToSelf connected wallet env st))"
  proof (intro allI impI)
    fix changeAddress h err
    assume a: "wallet_getChangeAddress env = Inr changeAddress \<and> txHash s = Some h
          \<and> fetch env ''http://localhost:4000/api/transactions''
                (h, changeAddress, ''preprod'') = Inl err"
    with s have "h = hash" by simp
    with a have "wallet_getChangeAddress env = Inr changeAddress"
      and "fetch env ''http://localhost:4000/api/transactions''
                (hash, changeAddress, ''preprod'') = Inl err" by simp_all
    then show "ConsoleError ''Failed to notify backend about transaction:''
                \<in> set (fst (sendToSelf connected wallet env st))"
      unfolding cw by (rule sendToSelf_notification_logged [OF idle sub])
  qed
  from c1 c2 c3 c4 c5 show ?thesis by (intro conjI)
qed

text \<open>
  The theorem at the run of the willing wallet from the idle card, where the collector
  cannot be reached.
\<close>

theorem notification_failure_swallowed_witness:
  "txStatus (state_after idle_state (sendToSelf True True willing_env idle_state)) =
     \<lparr>step = Success, message = ''Transaction successful!'', txHash = Some ''hash1''\<rparr>
   \<and> snd (sendToSelf True True willing_env idle_state) = Inr ()
   \<and> fetch willing_env ''http://localhost:4000/api/transactions''
        (''hash1'', ''addr_test1'', ''preprod'') =
       Inl \<lparr>info_message = None, err_message = Some ''Failed to fetch''\<rparr>
   \<and> ConsoleError ''Failed to notify backend about transaction:''
        \<in> set (fst (sendToSelf True True willing_env idle_state))"
proof -
  let ?s = "\<lparr>step = Success, message = ''Transaction successful!'', txHash = Some ''hash1''\<rparr>"
  have reached: "?s \<in> set (statuses_of (fst (sendToSelf True True willing_env idle_state)))"
    by code_simp
  have success: "step ?s = Success" by simp
  have addr: "wallet_getChangeAddress willing_env = Inr ''addr_test1''"
    by (simp add: willing_env_def)
  have rejected: "fetch willing_env ''http://localhost:4000/api/transactions''
        (''hash1'', ''addr_test1'', ''preprod'') =
       Inl \<lparr>info_message = None, err_message = Some ''Failed to fetch''\<rparr>"
    by (simp add: willing_env_def)
  note swallowed = notification_failure_swallowed [OF reached success, of "fetch willing_env"]
  from swallowed have a: "snd (sendToSelf True True willing_env idle_state) = Inr ()"
    by (elim conjE)
  from swallowed have b: "txStatus (state_after idle_state (sendToSelf True True willing_env idle_state)) = ?s"
    by (elim conjE)
  from swallowed have logs: "\<forall>changeAddress hash err.
          wallet_getChangeAddress willing_env = Inr changeAddress \<and> txHash ?s = Some hash
          \<and> fetch willing_env ''http://localhost:4000/api/transactions''
                (hash, changeAddress, ''preprod'') = Inl err
          \<longrightarrow> ConsoleError ''Failed to notify backend about transaction:''
                \<in> set (fst (sendToSelf True True willing_env idle_state))"
    by (elim conjE)
  have "txHash ?s = Some ''hash1''" by simp
  with addr rejected
  have "wallet_getChangeAddress willing_env = Inr ''addr_test1'' \<and> txHash ?s = Some ''hash1''
          \<and> fetch willing_env ''http://localhost:4000/api/transactions''
                (''hash1'', ''addr_test1'', ''preprod'') =
              Inl \<lparr>info_message = None, err_message = Some ''Failed to fetch''\<rparr>"
    by (intro conjI)
  with logs [rule_format, of "''addr_test1''" "''hash1''"
      "\<lparr>info_message = None, err_message = Some ''Failed to fetch''\<rparr>"]
  have c: "ConsoleError ''Failed to notify backend about transaction:''
        \<in> set (fst (sendToSelf True True willing_env idle_state))" .
  from b a rejected c show ?thesis by (intro conjI)
qed

subsection \<open>The balance\<close>

text \<open>
  C10. The promise of \<open>getBalance\<close> is fulfilled for every outcome of \<open>wallet.getBalance\<close>.
  When the guard passes (connected, wallet present), the last event clears the loading flag,
  so it is false in the state the call leaves; when the wallet call fails, or its list has no
  asset of unit \<open>"lovelace"\<close>, the balance is set to \<open>"0"\<close>; otherwise it is the quantity of the
  first such asset.
\<close>

theorem getBalance_settles:
  "snd (getBalance connected wallet env) = Inr ()
   \<and> (connected \<and> wallet \<longrightarrow>
        \<not> isLoadingBalance (state_after st (getBalance connected wallet env))
        \<and> (\<exists>evs. fst (getBalance connected wallet env) = evs @ [SetIsLoadingBalance False])
        \<and> ((\<exists>err. wallet_getBalance env = Inl err)
             \<or> (\<exists>assets. wallet_getBalance env = Inr assets
                   \<and> (\<forall>a\<in>set assets. unit a \<noteq> ''lovelace''))
            \<longrightarrow> balanceLovelace (state_after st (getBalance connected wallet env)) = ''0'')
        \<and> (\<forall>assets a. wallet_getBalance env = Inr assets
               \<and> find (\<lambda>asset. unit asset = ''lovelace'') assets = Some a
            \<longrightarrow> balanceLovelace (state_after st (getBalance connected wallet env)) = quantity a))"
proof (intro conjI impI)
  show "snd (getBalance connected wallet env) = Inr ()" by (rule getBalance_resolves)
next
  assume "connected \<and> wallet"
  then have cw: "connected = True" "wallet = True" by simp_all
  show "\<not> isLoadingBalance (state_after st (getBalance connected wallet env))"
    unfolding cw by (simp add: getBalance_run state_after_def split: sum.splits)
  show "\<exists>evs. fst (getBalance connected wallet env) = evs @ [SetIsLoadingBalance False]"
    unfolding cw by (cases "wallet_getBalance env") (simp_all add: getBalance_run)
  show "balanceLovelace (state_after st (getBalance connected wallet env)) = ''0''"
    if "(\<exists>err. wallet_getBalance env = Inl err)
        \<or> (\<exists>assets. wallet_getBalance env = Inr assets
              \<and> (\<forall>a\<in>set assets. unit a \<noteq> ''lovelace''))"
    using that
  proof (elim disjE exE conjE)
    fix err assume "wallet_getBalance env = Inl err"
    then show ?thesis unfolding cw by (simp add: getBalance_run state_after_def)
  next
    fix assets
    assume assets: "wallet_getBalance env = Inr assets"
      and none: "\<forall>a\<in>set assets. unit a \<noteq> ''lovelace''"
    from none have "find (\<lambda>asset. unit asset = ''lovelace'') assets = None"
      by (simp add: find_None_iff)
    with assets show ?thesis unfolding cw by (simp add: getBalance_run state_after_def)
  qed
  show "\<forall>assets a. wallet_getBalance env = Inr assets
               \<and> find (\<lambda>asset. unit asset = ''lovelace'') assets = Some a
            \<longrightarrow> balanceLovelace (state_after st (getBalance connected wallet env)) = quantity a"
    unfolding cw by (simp add: getBalance_run state_after_def)
qed

text \<open>
  The theorem at a card that shows a loading flag and the balance \<open>"77"\<close>, with a wallet that
  holds one asset other than lovelace.
\<close>

theorem getBalance_settles_witness:
  "\<not> isLoadingBalance (state_after (idle_state\<lparr>isLoadingBalance := True, balanceLovelace := ''77''\<rparr>)
        (getBalance True True
           (willing_env\<lparr>wallet_getBalance := Inr [\<lparr>unit = ''asset1'', quantity = ''3''\<rparr>]\<rparr>)))
   \<and> balanceLovelace (state_after (idle_state\<lparr>isLoadingBalance := True, balanceLovelace := ''77''\<rparr>)
        (getBalance True True
           (willing_env\<lparr>wallet_getBalance := Inr [\<lparr>unit = ''asset1'', quantity = ''3''\<rparr>]\<rparr>))) = ''0''
   \<and> snd (getBalance True True
           (willing_env\<lparr>wallet_getBalance := Inr [\<lparr>unit = ''asset1'', quantity = ''3''\<rparr>]\<rparr>)) = Inr ()"
proof -
  let ?env = "willing_env\<lparr>wallet_getBalance := Inr [\<lparr>unit = ''asset1'', quantity = ''3''\<rparr>]\<rparr>"
  let ?st = "idle_state\<lparr>isLoadingBalance := True, balanceLovelace := ''77''\<rparr>"
  have "wallet_getBalance ?env = Inr [\<lparr>unit = ''asset1'', quantity = ''3''\<rparr>]
        \<and> (\<forall>a\<in>set [\<lparr>unit = ''asset1'', quantity = ''3''\<rparr>]. unit a \<noteq> ''lovelace'')"
    by simp
  then have no_lovelace: "(\<exists>err. wallet_getBalance ?env = Inl err)
             \<or> (\<exists>assets. wallet_getBalance ?env = Inr assets
                   \<and> (\<forall>a\<in>set assets. unit a \<noteq> ''lovelace''))"
    by blast
  from getBalance_settles [of True True ?env ?st] no_lovelace show ?thesis by simp
qed

section \<open>Properties of the transaction collector\<close>

subsection \<open>Validation\<close>

lemma trim_Nil_iff: "trim s = [] \<longleftrightarrow> (\<forall>c\<in>set s. isStrWhiteSpaceChar c)"
proof
  assume "trim s = []"
  then have "dropWhile isStrWhiteSpaceChar (rev (dropWhile isStrWhiteSpaceChar s)) = []"
    by (simp add: trim_def)
  then have all: "\<forall>c\<in>set (dropWhile isStrWhiteSpaceChar s). isStrWhiteSpaceChar c"
    by (simp add: dropWhile_eq_Nil_conv)
  have "dropWhile isStrWhiteSpaceChar s = []"
  proof (rule ccontr)
    assume ne: "dropWhile isStrWhiteSpaceChar s \<noteq> []"
    then have "\<not> isStrWhiteSpaceChar (hd (dropWhile isStrWhiteSpaceChar s))"
      by (rule hd_dropWhile)
    moreover from ne have "hd (dropWhile isStrWhiteSpaceChar s) \<in> set (dropWhile isStrWhiteSpaceChar s)"
      by simp
    ultimately show False using all by blast
  qed
  then show "\<forall>c\<in>set s. isStrWhiteSpaceChar c" by (simp add: dropWhile_eq_Nil_conv)
next
  assume "\<forall>c\<in>set s. isStrWhiteSpaceChar c"
  then have d: "dropWhile isStrWhiteSpaceChar s = []" by (simp add: dropWhile_eq_Nil_conv)
  show "trim s = []" unfolding trim_def d by simp
qed

lemma trim_has_nonspace:
  assumes "trim s \<noteq> []"
  shows "\<exists>c\<in>set (trim s). \<not> isStrWhiteSpaceChar c"
proof -
  let ?e = "dropWhile isStrWhiteSpaceChar (rev (dropWhile isStrWhiteSpaceChar s))"
  from assms have ne: "?e \<noteq> []" by (simp add: trim_def)
  then have "\<not> isStrWhiteSpaceChar (hd ?e)" by (rule hd_dropWhile)
  moreover from ne have "hd ?e \<in> set ?e" by simp
  then have "hd ?e \<in> set (trim s)" by (simp add: trim_def)
  ultimately show ?thesis by blast
qed

lemma txHash_invalid_iff:
  "txHash_invalid h \<longleftrightarrow> (case h of JString s \<Rightarrow> trim s = [] | _ \<Rightarrow> True)"
proof (cases h)
  case (JString s)
  have "s = [] \<Longrightarrow> trim s = []" by (simp add: trim_def)
  with JString show ?thesis by (auto simp: txHash_invalid_def)
qed (simp_all add: txHash_invalid_def)

lemma spec_txHash_rejected_iff:
  "spec_txHash_rejected req_body \<longleftrightarrow>
     txHash_invalid (req_txHash (case req_body of
         Some b \<Rightarrow> b
       | None \<Rightarrow> \<lparr>req_txHash = JUndefined, req_walletAddress = JUndefined,
                   req_network = JUndefined\<rparr>))"
  by (cases req_body)
     (auto simp: spec_txHash_rejected_def txHash_invalid_iff split: json.splits)

lemma post_transactions_rejected:
  "spec_txHash_rejected req_body \<Longrightarrow>
   post_transactions st req_body now fault =
     (\<lparr>status = 400, body = Failure ''txHash is required and must be a non-empty string.''\<rparr>, st)"
  by (simp add: post_transactions_def spec_txHash_rejected_iff Let_def)

lemma post_transactions_accepted:
  assumes "req_txHash b = JString s" and "trim s \<noteq> []"
  shows "post_transactions st (Some b) now fault =
     (let txRecord =
           \<lparr>rec_txHash = trim s,
            rec_walletAddress =
              (if truthy (req_walletAddress b) then req_walletAddress b else JString []),
            rec_network =
              (if truthy (req_network b) then req_network b else JString ''preprod''),
            createdAt = now\<rparr>
      in if mongoConnected st then
           (case Transaction_create fault txRecord of
              Inr created \<Rightarrow>
                (\<lparr>status = 201, body = Item Mongo created\<rparr>,
                 st\<lparr>mongoCollection := mongoCollection st @ [created]\<rparr>)
            | Inl err \<Rightarrow>
                (\<lparr>status = 500, body = Failure ''Failed to save transaction.''\<rparr>, st))
         else
           (\<lparr>status = 201, body = Item Memory txRecord\<rparr>,
            st\<lparr>inMemoryTxHistory := inMemoryTxHistory st @ [txRecord]\<rparr>))"
  using assms by (simp add: post_transactions_def txHash_invalid_iff Let_def)

subsection \<open>The schema's cast\<close>

lemma castString_None_iff: "castString v = None \<longleftrightarrow> v = JObject"
  by (cases v) (simp_all add: castString_def)

lemma castString_default_None_iff:
  "castString (if truthy v then v else JString d) = None \<longleftrightarrow> v = JObject"
  by (cases v) (simp_all add: castString_def)

lemma schema_cast_None_iff:
  "schema_cast r = None \<longleftrightarrow> rec_walletAddress r = JObject \<or> rec_network r = JObject"
proof -
  have obj: "castString JObject = None" by (simp add: castString_def)
  show ?thesis
    by (auto simp: schema_cast_def castString_None_iff obj split: option.splits)
qed

lemma schema_cast_Some:
  assumes "schema_cast r = Some created"
  shows "rec_txHash created = rec_txHash r \<and> createdAt created = createdAt r
    \<and> castString (rec_walletAddress r) = Some (rec_walletAddress created)
    \<and> castString (rec_network r) = Some (rec_network created)"
  using assms by (auto simp: schema_cast_def split: option.splits)

lemma Transaction_create_rejects_iff:
  "(\<exists>err. Transaction_create fault r = Inl err) \<longleftrightarrow>
     fault \<noteq> None \<or> rec_walletAddress r = JObject \<or> rec_network r = JObject"
proof (cases "schema_cast r")
  case None
  then show ?thesis
    using schema_cast_None_iff [of r] by (simp add: Transaction_create_def)
next
  case (Some doc)
  then have "\<not> (rec_walletAddress r = JObject \<or> rec_network r = JObject)"
    using schema_cast_None_iff [of r] by simp
  with Some show ?thesis by (cases fault) (simp_all add: Transaction_create_def)
qed

lemma Transaction_create_fulfilled:
  assumes "fault = None" and "rec_walletAddress r \<noteq> JObject" and "rec_network r \<noteq> JObject"
  shows "\<exists>created. Transaction_create fault r = Inr created \<and> schema_cast r = Some created"
proof -
  from assms(2,3) have "schema_cast r \<noteq> None" by (simp add: schema_cast_None_iff)
  then obtain doc where "schema_cast r = Some doc" by blast
  with assms(1) show ?thesis by (simp add: Transaction_create_def)
qed

subsection \<open>Listing\<close>

lemma rev_slice_last: "rev (slice_last n xs) = take n (rev xs)"
proof (cases "n \<le> length xs")
  case True
  then have "length xs - (length xs - n) = n" by simp
  then show ?thesis by (simp add: slice_last_def rev_drop)
next
  case False
  then show ?thesis by (simp add: slice_last_def)
qed

lemma insort_key_before_last:
  "f y \<le> f x \<Longrightarrow> insort_key f y (zs @ [x]) = insort_key f y zs @ [x]"
  by (induction zs) simp_all

lemma sort_key_snoc:
  "\<forall>y\<in>set xs. f y \<le> f x \<Longrightarrow> sort_key f (xs @ [x]) = sort_key f xs @ [x]"
proof (induction xs)
  case Nil
  then show ?case by simp
next
  case (Cons y ys)
  then show ?case by (simp add: insort_key_before_last)
qed

lemma find_sort_limit_newest:
  assumes "\<forall>d\<in>set docs. createdAt d \<le> createdAt r"
  shows "find_sort_limit (Suc n) (docs @ [r]) = r # find_sort_limit n docs"
  using sort_key_snoc [OF assms] by (simp add: find_sort_limit_def)

lemma find_sort_limit_sorted:
  "sorted_wrt (\<lambda>a b. createdAt b \<le> createdAt a) (rev (sort_key createdAt docs))"
proof -
  have "sorted (map createdAt (sort_key createdAt docs))" by (rule sorted_sort_key)
  then have "sorted_wrt (\<lambda>a b. createdAt a \<le> createdAt b) (sort_key createdAt docs)"
    by (simp add: sorted_wrt_map)
  then show ?thesis by (simp add: sorted_wrt_rev)
qed

lemma find_sort_limit_prefix:
  "\<exists>rest. mset (find_sort_limit n docs @ rest) = mset docs
     \<and> sorted_wrt (\<lambda>a b. createdAt b \<le> createdAt a) (find_sort_limit n docs @ rest)"
proof -
  let ?all = "rev (sort_key createdAt docs)"
  have "find_sort_limit n docs @ drop n ?all = ?all" by (simp add: find_sort_limit_def)
  moreover have "mset ?all = mset docs" by simp
  ultimately show ?thesis
    using find_sort_limit_sorted [of docs] by (intro exI [of _ "drop n ?all"]) simp
qed

lemma length_find_sort_limit: "length (find_sort_limit n docs) = min n (length docs)"
  by (simp add: find_sort_limit_def min.commute)

subsection \<open>What the array holds\<close>

lemma connect_settled_memory [simp]:
  "inMemoryTxHistory (connect_settled uri outcome st) = inMemoryTxHistory st"
  by (simp add: connect_settled_def split: sum.splits)

lemma post_transactions_memory_step:
  "inMemoryTxHistory (snd (post_transactions st req_body now fault)) = inMemoryTxHistory st
   \<or> (\<exists>r s. inMemoryTxHistory (snd (post_transactions st req_body now fault)) =
                inMemoryTxHistory st @ [r]
             \<and> rec_txHash r = trim s \<and> trim s \<noteq> [] \<and> createdAt r = now)"
proof (cases "spec_txHash_rejected req_body")
  case True
  then show ?thesis by (simp add: post_transactions_rejected)
next
  case False
  then obtain b s where b: "req_body = Some b" "req_txHash b = JString s" "trim s \<noteq> []"
    by (auto simp: spec_txHash_rejected_def split: option.splits json.splits)
  show ?thesis
    unfolding b(1) post_transactions_accepted [OF b(2,3)]
    using b(3) by (auto simp: Let_def split: sum.splits)
qed

lemma reachable_memory_hashes:
  "reachable st \<Longrightarrow>
   \<forall>r\<in>set (inMemoryTxHistory st). \<exists>c\<in>set (rec_txHash r). \<not> isStrWhiteSpaceChar c"
proof (induction rule: reachable.induct)
  case (loaded docs)
  show ?case by (simp add: module_loaded_def)
next
  case (settled st uri outcome)
  then show ?case by simp
next
  case (posted st req_body now fault)
  from post_transactions_memory_step [of st req_body now fault] show ?case
  proof (elim disjE exE conjE)
    assume "inMemoryTxHistory (snd (post_transactions st req_body now fault)) =
              inMemoryTxHistory st"
    with posted.IH show ?thesis by simp
  next
    fix r s
    assume step: "inMemoryTxHistory (snd (post_transactions st req_body now fault)) =
                inMemoryTxHistory st @ [r]"
      and r: "rec_txHash r = trim s" "trim s \<noteq> []"
    from trim_has_nonspace [OF r(2)] r(1)
    have "\<exists>c\<in>set (rec_txHash r). \<not> isStrWhiteSpaceChar c" by simp
    with posted.IH step show ?thesis by simp
  qed
qed

text \<open>While the clock never runs backwards, the stamps of the array never decrease.\<close>

lemma reachable_steady_sorted:
  "reachable_steady st \<Longrightarrow> sorted (map createdAt (inMemoryTxHistory st))"
proof (induction rule: reachable_steady.induct)
  case (loaded docs)
  show ?case by (simp add: module_loaded_def)
next
  case (settled st uri outcome)
  then show ?case by simp
next
  case (posted st now req_body fault)
  from post_transactions_memory_step [of st req_body now fault] show ?case
  proof (elim disjE exE conjE)
    assume "inMemoryTxHistory (snd (post_transactions st req_body now fault)) =
              inMemoryTxHistory st"
    with posted.IH show ?thesis by simp
  next
    fix r s
    assume step: "inMemoryTxHistory (snd (post_transactions st req_body now fault)) =
                inMemoryTxHistory st @ [r]"
      and stamp: "createdAt r = now"
    from posted.hyps(2) stamp
    have "\<forall>x\<in>set (inMemoryTxHistory st). createdAt x \<le> createdAt r" by simp
    with posted.IH show ?thesis unfolding step by (simp add: sorted_append)
  qed
qed

lemma get_transactions_memory_items:
  assumes "body (get_transactions st fault) = Items Memory items"
  shows "\<not> mongoConnected st \<and> items = take 20 (rev (inMemoryTxHistory st))"
proof (cases "mongoConnected st")
  case True
  with assms show ?thesis by (cases fault) (simp_all add: get_transactions_def)
next
  case False
  with assms show ?thesis by (simp add: get_transactions_def rev_slice_last)
qed

text \<open>
  C4. A create request whose \<open>txHash\<close> is missing, not a string, or empty after trimming is
  answered with status 400 and \<open>ok: false\<close>, for every state, clock reading and behaviour of
  the store, and the state is left as it was: a list request after it is answered as it
  would have been before. In a state that the server can reach, no record listed from the
  array carries the rejected hash.
\<close>

theorem post_invalid_txHash_rejected:
  assumes "spec_txHash_rejected req_body"
  shows "post_transactions st req_body now fault =
           (\<lparr>status = 400,
             body = Failure ''txHash is required and must be a non-empty string.''\<rparr>, st)
     \<and> \<not> ok (body (fst (post_transactions st req_body now fault)))
     \<and> get_transactions (snd (post_transactions st req_body now fault)) fault' =
         get_transactions st fault'
     \<and> (\<forall>b s items. reachable st \<and> req_body = Some b \<and> req_txHash b = JString s
           \<and> body (get_transactions (snd (post_transactions st req_body now fault)) fault') =
               Items Memory items
          \<longrightarrow> s \<notin> rec_txHash ` set items)"
proof -
  note rejected = post_transactions_rejected [OF assms, of st now fault]
  have c1: "post_transactions st req_body now fault =
           (\<lparr>status = 400,
             body = Failure ''txHash is required and must be a non-empty string.''\<rparr>, st)"
    by (rule rejected)
  have c2: "\<not> ok (body (fst (post_transactions st req_body now fault)))"
    by (simp add: rejected)
  have c3: "get_transactions (snd (post_transactions st req_body now fault)) fault' =
         get_transactions st fault'"
    by (simp add: rejected)
  have c4: "\<forall>b s items. reachable st \<and> req_body = Some b \<and> req_txHash b = JString s
           \<and> body (get_transactions (snd (post_transactions st req_body now fault)) fault') =
               Items Memory items
          \<longrightarrow> s \<notin> rec_txHash ` set items"
  proof (intro allI impI notI)
    fix b s items
    assume h: "reachable st \<and> req_body = Some b \<and> req_txHash b = JString s
           \<and> body (get_transactions (snd (post_transactions st req_body now fault)) fault') =
               Items Memory items"
      and listed: "s \<in> rec_txHash ` set items"
    from h assms have blank: "\<forall>c\<in>set s. isStrWhiteSpaceChar c"
      by (simp add: spec_txHash_rejected_def trim_Nil_iff)
    from h have "body (get_transactions st fault') = Items Memory items" by (simp add: rejected)
    then have "items = take 20 (rev (inMemoryTxHistory st))"
      by (simp add: get_transactions_memory_items)
    then have "set items \<subseteq> set (inMemoryTxHistory st)"
      using set_take_subset [of 20 "rev (inMemoryTxHistory st)"] by simp
    with listed obtain r where r: "r \<in> set (inMemoryTxHistory st)" "s = rec_txHash r" by auto
    from h have "reachable st" by simp
    from reachable_memory_hashes [OF this] r
    have "\<exists>c\<in>set s. \<not> isStrWhiteSpaceChar c" by simp
    with blank show False by blast
  qed
  from c1 c2 c3 c4 show ?thesis by (intro conjI)
qed

text \<open>
  C5 (as amended). A create request with a string \<open>txHash\<close> that is not blank builds the
  record \<open>txRecord\<close> (the trimmed hash, the defaults, the clock reading). Without Mongo it is
  answered 201 with that record and the source memory, the record is appended to the array,
  and it is the first item of the next list. With Mongo, when the store does not fault and
  neither \<open>walletAddress\<close> nor \<open>network\<close> is an object, it is answered 201 with the source
  mongo and the document \<open>created\<close>: the trimmed hash, the clock reading, and the two other
  fields as the schema casts them to strings; the document is appended to the collection and
  is the first item of the next list that the store serves when every document of the
  collection is older. With Mongo, when the store faults or one of the two fields is an
  object, the answer is 500 and nothing is stored.
\<close>

theorem post_valid_txHash_stored:
  assumes "req_txHash b = JString s" and "trim s \<noteq> []"
    and "txRecord =
           \<lparr>rec_txHash = trim s,
            rec_walletAddress =
              (if truthy (req_walletAddress b) then req_walletAddress b else JString []),
            rec_network =
              (if truthy (req_network b) then req_network b else JString ''preprod''),
            createdAt = now\<rparr>"
  shows "(\<not> mongoConnected st \<longrightarrow>
            post_transactions st (Some b) now fault =
              (\<lparr>status = 201, body = Item Memory txRecord\<rparr>,
               st\<lparr>inMemoryTxHistory := inMemoryTxHistory st @ [txRecord]\<rparr>)
            \<and> get_transactions (snd (post_transactions st (Some b) now fault)) fault' =
                \<lparr>status = 200,
                 body = Items Memory (txRecord # take 19 (rev (inMemoryTxHistory st)))\<rparr>)
      \<and> (mongoConnected st \<and> fault = None
           \<and> req_walletAddress b \<noteq> JObject \<and> req_network b \<noteq> JObject \<longrightarrow>
            (\<exists>created.
               post_transactions st (Some b) now fault =
                 (\<lparr>status = 201, body = Item Mongo created\<rparr>,
                  st\<lparr>mongoCollection := mongoCollection st @ [created]\<rparr>)
               \<and> rec_txHash created = trim s \<and> createdAt created = now
               \<and> castString (rec_walletAddress txRecord) = Some (rec_walletAddress created)
               \<and> castString (rec_network txRecord) = Some (rec_network created)
               \<and> ((\<forall>d\<in>set (mongoCollection st). createdAt d < now) \<longrightarrow>
                    get_transactions (snd (post_transactions st (Some b) now fault)) None =
                      \<lparr>status = 200,
                       body = Items Mongo (created # find_sort_limit 19 (mongoCollection st))\<rparr>)))
      \<and> (mongoConnected st
           \<and> (fault \<noteq> None \<or> req_walletAddress b = JObject \<or> req_network b = JObject) \<longrightarrow>
            post_transactions st (Some b) now fault =
              (\<lparr>status = 500, body = Failure ''Failed to save transaction.''\<rparr>, st))"
proof -
  note accepted = post_transactions_accepted [OF assms(1,2), of st now fault, folded assms(3)]
  have wallet: "rec_walletAddress txRecord = JObject \<longleftrightarrow> req_walletAddress b = JObject"
    using castString_default_None_iff [of "req_walletAddress b" "[]"]
    by (simp add: assms(3) castString_None_iff)
  have network: "rec_network txRecord = JObject \<longleftrightarrow> req_network b = JObject"
    using castString_default_None_iff [of "req_network b" "''preprod''"]
    by (simp add: assms(3) castString_None_iff)
  have stamp: "rec_txHash txRecord = trim s" "createdAt txRecord = now"
    by (simp_all add: assms(3))
  have in_memory: "post_transactions st (Some b) now fault =
              (\<lparr>status = 201, body = Item Memory txRecord\<rparr>,
               st\<lparr>inMemoryTxHistory := inMemoryTxHistory st @ [txRecord]\<rparr>)
            \<and> get_transactions (snd (post_transactions st (Some b) now fault)) fault' =
                \<lparr>status = 200,
                 body = Items Memory (txRecord # take 19 (rev (inMemoryTxHistory st)))\<rparr>"
    if mem: "\<not> mongoConnected st"
  proof -
    from mem accepted
    have post: "post_transactions st (Some b) now fault =
             (\<lparr>status = 201, body = Item Memory txRecord\<rparr>,
              st\<lparr>inMemoryTxHistory := inMemoryTxHistory st @ [txRecord]\<rparr>)"
      by (simp add: Let_def)
    have "get_transactions (snd (post_transactions st (Some b) now fault)) fault' =
            \<lparr>status = 200,
             body = Items Memory (txRecord # take 19 (rev (inMemoryTxHistory st)))\<rparr>"
      using mem by (simp add: post get_transactions_def rev_slice_last)
    with post show ?thesis by (intro conjI)
  qed
  have in_mongo: "\<exists>created.
               post_transactions st (Some b) now fault =
                 (\<lparr>status = 201, body = Item Mongo created\<rparr>,
                  st\<lparr>mongoCollection := mongoCollection st @ [created]\<rparr>)
               \<and> rec_txHash created = trim s \<and> createdAt created = now
               \<and> castString (rec_walletAddress txRecord) = Some (rec_walletAddress created)
               \<and> castString (rec_network txRecord) = Some (rec_network created)
               \<and> ((\<forall>d\<in>set (mongoCollection st). createdAt d < now) \<longrightarrow>
                    get_transactions (snd (post_transactions st (Some b) now fault)) None =
                      \<lparr>status = 200,
                       body = Items Mongo (created # find_sort_limit 19 (mongoCollection st))\<rparr>)"
    if h: "mongoConnected st \<and> fault = None
           \<and> req_walletAddress b \<noteq> JObject \<and> req_network b \<noteq> JObject"
  proof -
    from h have mongo: "mongoConnected st" and nofault: "fault = None" by simp_all
    from h wallet network
    have "rec_walletAddress txRecord \<noteq> JObject" "rec_network txRecord \<noteq> JObject"
      by simp_all
    from Transaction_create_fulfilled [OF nofault this] obtain created where
      created: "Transaction_create fault txRecord = Inr created"
      and cast: "schema_cast txRecord = Some created"
      by blast
    from mongo accepted created
    have post: "post_transactions st (Some b) now fault =
                 (\<lparr>status = 201, body = Item Mongo created\<rparr>,
                  st\<lparr>mongoCollection := mongoCollection st @ [created]\<rparr>)"
      by (simp add: Let_def)
    note fields = schema_cast_Some [OF cast]
    from fields stamp have f1: "rec_txHash created = trim s" and f2: "createdAt created = now"
      by simp_all
    from fields
    have f3: "castString (rec_walletAddress txRecord) = Some (rec_walletAddress created)"
      and f4: "castString (rec_network txRecord) = Some (rec_network created)"
      by simp_all
    have f5: "get_transactions (snd (post_transactions st (Some b) now fault)) None =
                      \<lparr>status = 200,
                       body = Items Mongo (created # find_sort_limit 19 (mongoCollection st))\<rparr>"
      if older: "\<forall>d\<in>set (mongoCollection st). createdAt d < now"
    proof -
      from older f2 have "\<forall>d\<in>set (mongoCollection st). createdAt d \<le> createdAt created"
        by (simp add: less_imp_le)
      then have "find_sort_limit (Suc 19) (mongoCollection st @ [created]) =
                   created # find_sort_limit 19 (mongoCollection st)"
        by (rule find_sort_limit_newest)
      then have "find_sort_limit 20 (mongoCollection st @ [created]) =
                   created # find_sort_limit 19 (mongoCollection st)"
        by simp
      with mongo show ?thesis by (simp add: post get_transactions_def)
    qed
    from post f1 f2 f3 f4 f5 show ?thesis by (intro exI [of _ created] conjI impI)
  qed
  have refused: "post_transactions st (Some b) now fault =
              (\<lparr>status = 500, body = Failure ''Failed to save transaction.''\<rparr>, st)"
    if h: "mongoConnected st
           \<and> (fault \<noteq> None \<or> req_walletAddress b = JObject \<or> req_network b = JObject)"
  proof -
    from h wallet network
    have "fault \<noteq> None \<or> rec_walletAddress txRecord = JObject \<or> rec_network txRecord = JObject"
      by simp
    then obtain err where "Transaction_create fault txRecord = Inl err"
      using Transaction_create_rejects_iff [of fault txRecord] by blast
    with h accepted show ?thesis by (simp add: Let_def)
  qed
  have c1: "\<not> mongoConnected st \<longrightarrow>
            post_transactions st (Some b) now fault =
              (\<lparr>status = 201, body = Item Memory txRecord\<rparr>,
               st\<lparr>inMemoryTxHistory := inMemoryTxHistory st @ [txRecord]\<rparr>)
            \<and> get_transactions (snd (post_transactions st (Some b) now fault)) fault' =
                \<lparr>status = 200,
                 body = Items Memory (txRecord # take 19 (rev (inMemoryTxHistory st)))\<rparr>"
    by (rule impI) (rule in_memory)
  have c2: "mongoConnected st \<and> fault = None
           \<and> req_walletAddress b \<noteq> JObject \<and> req_network b \<noteq> JObject \<longrightarrow>
            (\<exists>created.
               post_transactions st (Some b) now fault =
                 (\<lparr>status = 201, body = Item Mongo created\<rparr>,
                  st\<lparr>mongoCollection := mongoCollection st @ [created]\<rparr>)
               \<and> rec_txHash created = trim s \<and> createdAt created = now
               \<and> castString (rec_walletAddress txRecord) = Some (rec_walletAddress created)
               \<and> castString (rec_network txRecord) = Some (rec_network created)
               \<and> ((\<forall>d\<in>set (mongoCollection st). createdAt d < now) \<longrightarrow>
                    get_transactions (snd (post_transactions st (Some b) now fault)) None =
                      \<lparr>status = 200,
                       body = Items Mongo (created # find_sort_limit 19 (mongoCollection st))\<rparr>))"
    by (rule impI) (rule in_mongo)
  have c3: "mongoConnected st
           \<and> (fault \<noteq> None \<or> req_walletAddress b = JObject \<or> req_network b = JObject) \<longrightarrow>
            post_transactions st (Some b) now fault =
              (\<lparr>status = 500, body = Failure ''Failed to save transaction.''\<rparr>, st)"
    by (rule impI) (rule refused)
  from c1 c2 c3 show ?thesis by (intro conjI)
qed

text \<open>
  C6 (as amended). A list request is answered with status 200 and at most 20 items, or with
  status 500 when the store rejects the query. From the array the items are its last 20
  records (all of them when there are fewer), read from the last inserted to the first;
  their \<open>createdAt\<close> descends when the stamps of the array never decrease, as in every state
  reached while the clock never runs backwards. From Mongo the items are 20 documents of the
  collection (all of them when there are fewer) by descending \<open>createdAt\<close>, and no document
  left out is newer than a listed one: the items begin an arrangement of the whole
  collection by descending \<open>createdAt\<close>.
\<close>

theorem get_transactions_latest_20:
  "(case body (get_transactions st fault) of
      Items src items \<Rightarrow>
        status (get_transactions st fault) = 200
        \<and> length items \<le> 20
        \<and> (src = Memory \<longrightarrow>
              \<not> mongoConnected st
              \<and> items = take 20 (rev (inMemoryTxHistory st))
              \<and> length items = min 20 (length (inMemoryTxHistory st))
              \<and> (sorted (map createdAt (inMemoryTxHistory st)) \<longrightarrow>
                   sorted_wrt (\<lambda>a b. createdAt b \<le> createdAt a) items)
              \<and> (reachable_steady st \<longrightarrow>
                   sorted_wrt (\<lambda>a b. createdAt b \<le> createdAt a) items))
        \<and> (src = Mongo \<longrightarrow>
              mongoConnected st \<and> fault = None
              \<and> length items = min 20 (length (mongoCollection st))
              \<and> set items \<subseteq> set (mongoCollection st)
              \<and> sorted_wrt (\<lambda>a b. createdAt b \<le> createdAt a) items
              \<and> (\<forall>d\<in>set (mongoCollection st) - set items. \<forall>i\<in>set items.
                    createdAt d \<le> createdAt i)
              \<and> (\<exists>rest. mset (items @ rest) = mset (mongoCollection st)
                    \<and> sorted_wrt (\<lambda>a b. createdAt b \<le> createdAt a) (items @ rest)))
    | Item src r \<Rightarrow> False
    | Failure m \<Rightarrow>
        status (get_transactions st fault) = 500 \<and> mongoConnected st \<and> fault \<noteq> None)"
proof (cases "mongoConnected st")
  case False
  have desc: "sorted_wrt (\<lambda>a b. createdAt b \<le> createdAt a) (take 20 (rev (inMemoryTxHistory st)))"
    if "sorted (map createdAt (inMemoryTxHistory st))"
  proof -
    from that have "sorted_wrt (\<lambda>a b. createdAt a \<le> createdAt b) (inMemoryTxHistory st)"
      by (simp add: sorted_wrt_map)
    then have "sorted_wrt (\<lambda>a b. createdAt b \<le> createdAt a) (rev (inMemoryTxHistory st))"
      by (simp add: sorted_wrt_rev)
    then show ?thesis by (rule sorted_wrt_take)
  qed
  have steady: "sorted_wrt (\<lambda>a b. createdAt b \<le> createdAt a) (take 20 (rev (inMemoryTxHistory st)))"
    if "reachable_steady st"
    using reachable_steady_sorted [OF that] by (rule desc)
  have len: "length (take 20 (rev (inMemoryTxHistory st))) = min 20 (length (inMemoryTxHistory st))"
    by (simp add: min.commute)
  from False desc steady len show ?thesis
    by (simp add: get_transactions_def rev_slice_last)
next
  case True
  show ?thesis
  proof (cases fault)
    case (Some err)
    with True show ?thesis by (simp add: get_transactions_def)
  next
    case None
    let ?all = "rev (sort_key createdAt (mongoCollection st))"
    let ?items = "find_sort_limit 20 (mongoCollection st)"
    have items: "?items = take 20 ?all" by (simp add: find_sort_limit_def)
    have sorted_all: "sorted_wrt (\<lambda>a b. createdAt b \<le> createdAt a) ?all"
      by (rule find_sort_limit_sorted)
    have len: "length ?items \<le> 20" by (simp add: items)
    have exact: "length ?items = min 20 (length (mongoCollection st))"
      by (rule length_find_sort_limit)
    have sub: "set ?items \<subseteq> set (mongoCollection st)"
      unfolding items using set_take_subset [of 20 ?all] by simp
    have srt: "sorted_wrt (\<lambda>a b. createdAt b \<le> createdAt a) ?items"
      unfolding items using sorted_all by (rule sorted_wrt_take)
    have newest: "\<forall>d\<in>set (mongoCollection st) - set ?items. \<forall>i\<in>set ?items.
                    createdAt d \<le> createdAt i"
    proof (intro ballI)
      fix d i
      assume d: "d \<in> set (mongoCollection st) - set ?items" and i: "i \<in> set ?items"
      have "set ?all = set (take 20 ?all) \<union> set (drop 20 ?all)"
        by (metis append_take_drop_id set_append)
      with d have "d \<in> set (drop 20 ?all)" by (auto simp: items)
      moreover from sorted_all
      have "sorted_wrt (\<lambda>a b. createdAt b \<le> createdAt a) (take 20 ?all @ drop 20 ?all)"
        by simp
      then have "\<forall>x\<in>set (take 20 ?all). \<forall>y\<in>set (drop 20 ?all). createdAt y \<le> createdAt x"
        by (simp only: sorted_wrt_append) blast
      ultimately show "createdAt d \<le> createdAt i" using i by (simp add: items)
    qed
    note prefix = find_sort_limit_prefix [of 20 "mongoCollection st"]
    from True None len exact sub srt newest prefix show ?thesis
      by (simp add: get_transactions_def)
  qed
qed

lemma default_JObject_iff: "(if truthy v then v else JString d) = JObject \<longleftrightarrow> v = JObject"
  by (cases v) simp_all

text \<open>The answers to a create request with a valid hash.\<close>

lemma post_transactions_outcome:
  assumes "\<not> spec_txHash_rejected req_body"
  shows "(\<not> mongoConnected st \<longrightarrow>
            status (fst (post_transactions st req_body now fault)) = 201
            \<and> (\<exists>r. body (fst (post_transactions st req_body now fault)) = Item Memory r))
    \<and> (mongoConnected st
         \<and> (fault \<noteq> None
             \<or> (\<exists>b. req_body = Some b
                   \<and> (req_walletAddress b = JObject \<or> req_network b = JObject))) \<longrightarrow>
          post_transactions st req_body now fault =
            (\<lparr>status = 500, body = Failure ''Failed to save transaction.''\<rparr>, st))
    \<and> (mongoConnected st
         \<and> \<not> (fault \<noteq> None
               \<or> (\<exists>b. req_body = Some b
                     \<and> (req_walletAddress b = JObject \<or> req_network b = JObject))) \<longrightarrow>
          status (fst (post_transactions st req_body now fault)) = 201)"
proof -
  from assms obtain b s where b: "req_body = Some b" "req_txHash b = JString s" "trim s \<noteq> []"
    by (auto simp: spec_txHash_rejected_def split: option.splits json.splits)
  let ?r = "\<lparr>rec_txHash = trim s,
            rec_walletAddress =
              (if truthy (req_walletAddress b) then req_walletAddress b else JString []),
            rec_network =
              (if truthy (req_network b) then req_network b else JString ''preprod''),
            createdAt = now\<rparr>"
  note accepted = post_transactions_accepted [OF b(2,3), of st now fault]
  have rejects: "(\<exists>err. Transaction_create fault ?r = Inl err) \<longleftrightarrow>
          fault \<noteq> None \<or> req_walletAddress b = JObject \<or> req_network b = JObject"
    using Transaction_create_rejects_iff [of fault ?r] by (simp add: default_JObject_iff)
  have memory: "status (fst (post_transactions st req_body now fault)) = 201
            \<and> (\<exists>r. body (fst (post_transactions st req_body now fault)) = Item Memory r)"
    if "\<not> mongoConnected st"
    using that unfolding b(1) accepted by (simp add: Let_def)
  have refused: "post_transactions st req_body now fault =
            (\<lparr>status = 500, body = Failure ''Failed to save transaction.''\<rparr>, st)"
    if "mongoConnected st" "fault \<noteq> None \<or> req_walletAddress b = JObject \<or> req_network b = JObject"
  proof -
    from that(2) rejects obtain err where "Transaction_create fault ?r = Inl err" by blast
    with that(1) show ?thesis unfolding b(1) accepted by (simp add: Let_def)
  qed
  have stored: "status (fst (post_transactions st req_body now fault)) = 201"
    if "mongoConnected st" "\<not> (fault \<noteq> None \<or> req_walletAddress b = JObject \<or> req_network b = JObject)"
  proof -
    from that(2) rejects have "\<forall>err. Transaction_create fault ?r \<noteq> Inl err" by blast
    then obtain created where "Transaction_create fault ?r = Inr created"
      by (cases "Transaction_create fault ?r") auto
    with that(1) show ?thesis unfolding b(1) accepted by (simp add: Let_def)
  qed
  from memory refused stored show ?thesis unfolding b(1) by simp
qed

text \<open>
  C7 (as amended). When Mongo counts as connected and the store rejects the operation, list
  and create (of a valid hash) answer 500 with \<open>ok: false\<close> and leave the state as it was.
  Create answers 400 exactly for a rejected hash, and 500 exactly for a valid hash when
  Mongo counts as connected and \<open>Transaction.create\<close> rejects: the store faults, or
  \<open>walletAddress\<close> or \<open>network\<close> is an object that the schema refuses; list answers 500 exactly
  for a store fault. A connection that fails at startup leaves \<open>mongoConnected\<close> false, and
  with \<open>mongoConnected\<close> false every request is served from the array, whatever the store
  does.
\<close>

theorem store_fault_reported:
  "(mongoConnected st \<and> fault = Some err \<longrightarrow>
       get_transactions st fault =
         \<lparr>status = 500, body = Failure ''Failed to fetch transaction history.''\<rparr>
       \<and> (\<not> spec_txHash_rejected req_body \<longrightarrow>
            post_transactions st req_body now fault =
              (\<lparr>status = 500, body = Failure ''Failed to save transaction.''\<rparr>, st)))
   \<and> (status (fst (post_transactions st req_body now fault)) = 400
        \<longleftrightarrow> spec_txHash_rejected req_body)
   \<and> (status (fst (post_transactions st req_body now fault)) = 500
        \<longleftrightarrow> \<not> spec_txHash_rejected req_body \<and> mongoConnected st
            \<and> (fault \<noteq> None
                \<or> (\<exists>b. req_body = Some b
                      \<and> (req_walletAddress b = JObject \<or> req_network b = JObject))))
   \<and> (status (fst (post_transactions st req_body now fault)) = 500
        \<longrightarrow> snd (post_transactions st req_body now fault) = st)
   \<and> (status (get_transactions st fault) = 500 \<longleftrightarrow> mongoConnected st \<and> fault \<noteq> None)
   \<and> \<not> mongoConnected (connect_settled uri (Inl err) (module_loaded docs))
   \<and> (\<not> mongoConnected st \<longrightarrow>
        get_transactions st fault =
          \<lparr>status = 200, body = Items Memory (take 20 (rev (inMemoryTxHistory st)))\<rparr>
        \<and> (\<not> spec_txHash_rejected req_body \<longrightarrow>
             status (fst (post_transactions st req_body now fault)) = 201
             \<and> (\<exists>r. body (fst (post_transactions st req_body now fault)) = Item Memory r)))"
proof -
  let ?refused = "\<exists>b. req_body = Some b
                      \<and> (req_walletAddress b = JObject \<or> req_network b = JObject)"
  have post_status:
    "status (fst (post_transactions st req_body now fault)) =
       (if spec_txHash_rejected req_body then 400
        else if mongoConnected st \<and> (fault \<noteq> None \<or> ?refused) then 500 else 201)"
  proof (cases "spec_txHash_rejected req_body")
    case True
    then show ?thesis by (simp add: post_transactions_rejected)
  next
    case False
    note outcome = post_transactions_outcome [OF False, of st now fault]
    show ?thesis
    proof (cases "mongoConnected st")
      case no_mongo: False
      with outcome False show ?thesis by simp
    next
      case mongo: True
      show ?thesis
      proof (cases "fault \<noteq> None \<or> ?refused")
        case True
        with mongo outcome have "post_transactions st req_body now fault =
            (\<lparr>status = 500, body = Failure ''Failed to save transaction.''\<rparr>, st)"
          by blast
        with True mongo False show ?thesis by simp
      next
        case good: False
        with mongo outcome have "status (fst (post_transactions st req_body now fault)) = 201"
          by blast
        with good mongo False show ?thesis by simp
      qed
    qed
  qed
  have post_fault: "post_transactions st req_body now fault =
              (\<lparr>status = 500, body = Failure ''Failed to save transaction.''\<rparr>, st)"
    if "mongoConnected st" "fault \<noteq> None \<or> ?refused" "\<not> spec_txHash_rejected req_body"
    using post_transactions_outcome [OF that(3), of st now fault] that(1,2) by blast
  have post_memory: "\<exists>r. body (fst (post_transactions st req_body now fault)) = Item Memory r"
    if "\<not> mongoConnected st" "\<not> spec_txHash_rejected req_body"
    using post_transactions_outcome [OF that(2), of st now fault] that(1) by blast
  have c1: "mongoConnected st \<and> fault = Some err \<longrightarrow>
       get_transactions st fault =
         \<lparr>status = 500, body = Failure ''Failed to fetch transaction history.''\<rparr>
       \<and> (\<not> spec_txHash_rejected req_body \<longrightarrow>
            post_transactions st req_body now fault =
              (\<lparr>status = 500, body = Failure ''Failed to save transaction.''\<rparr>, st))"
  proof (intro impI conjI)
    assume h: "mongoConnected st \<and> fault = Some err"
    then show "get_transactions st fault =
         \<lparr>status = 500, body = Failure ''Failed to fetch transaction history.''\<rparr>"
      by (simp add: get_transactions_def)
    assume "\<not> spec_txHash_rejected req_body"
    with h show "post_transactions st req_body now fault =
              (\<lparr>status = 500, body = Failure ''Failed to save transaction.''\<rparr>, st)"
      by (intro post_fault) simp_all
  qed
  have c2: "status (fst (post_transactions st req_body now fault)) = 400
        \<longleftrightarrow> spec_txHash_rejected req_body"
    by (simp add: post_status)
  have c3: "status (fst (post_transactions st req_body now fault)) = 500
        \<longleftrightarrow> \<not> spec_txHash_rejected req_body \<and> mongoConnected st
            \<and> (fault \<noteq> None \<or> ?refused)"
    by (simp add: post_status)
  have c4: "status (fst (post_transactions st req_body now fault)) = 500
        \<longrightarrow> snd (post_transactions st req_body now fault) = st"
  proof
    assume "status (fst (post_transactions st req_body now fault)) = 500"
    with c3 have "\<not> spec_txHash_rejected req_body" "mongoConnected st" "fault \<noteq> None \<or> ?refused"
      by simp_all
    from post_fault [OF this(2,3,1)] show "snd (post_transactions st req_body now fault) = st"
      by simp
  qed
  have c5: "status (get_transactions st fault) = 500 \<longleftrightarrow> mongoConnected st \<and> fault \<noteq> None"
    by (cases fault) (simp_all add: get_transactions_def)
  have c6: "\<not> mongoConnected (connect_settled uri (Inl err) (module_loaded docs))"
    by (simp add: connect_settled_def module_loaded_def)
  have c7: "\<not> mongoConnected st \<longrightarrow>
        get_transactions st fault =
          \<lparr>status = 200, body = Items Memory (take 20 (rev (inMemoryTxHistory st)))\<rparr>
        \<and> (\<not> spec_txHash_rejected req_body \<longrightarrow>
             status (fst (post_transactions st req_body now fault)) = 201
             \<and> (\<exists>r. body (fst (post_transactions st req_body now fault)) = Item Memory r))"
  proof (intro impI conjI)
    assume mem: "\<not> mongoConnected st"
    then show "get_transactions st fault =
          \<lparr>status = 200, body = Items Memory (take 20 (rev (inMemoryTxHistory st)))\<rparr>"
      by (simp add: get_transactions_def rev_slice_last)
    assume valid: "\<not> spec_txHash_rejected req_body"
    with mem show "status (fst (post_transactions st req_body now fault)) = 201"
      by (simp add: post_status)
    from mem valid show "\<exists>r. body (fst (post_transactions st req_body now fault)) = Item Memory r"
      by (rule post_memory)
  qed
  from c1 c2 c3 c4 c5 c6 c7 show ?thesis by (intro conjI)
qed

subsection \<open>The theorems at sample requests\<close>

text \<open>
  C4 at the hash of two blanks, sent to a server without Mongo: the 400 answer, the state
  unchanged, and the list after it still empty.
\<close>

theorem post_invalid_txHash_rejected_witness:
  "spec_txHash_rejected (Some blank_request)
   \<and> post_transactions memory_server (Some blank_request) 5 None =
       (\<lparr>status = 400,
         body = Failure ''txHash is required and must be a non-empty string.''\<rparr>,
        memory_server)
   \<and> get_transactions (snd (post_transactions memory_server (Some blank_request) 5 None)) None =
       \<lparr>status = 200, body = Items Memory []\<rparr>"
proof -
  have blank: "spec_txHash_rejected (Some blank_request)" by code_simp
  have before: "get_transactions memory_server None = \<lparr>status = 200, body = Items Memory []\<rparr>"
    by code_simp
  note rejected = post_invalid_txHash_rejected [OF blank, of memory_server 5 None None]
  from rejected have a: "post_transactions memory_server (Some blank_request) 5 None =
       (\<lparr>status = 400,
         body = Failure ''txHash is required and must be a non-empty string.''\<rparr>,
        memory_server)"
    by (rule conjunct1)
  from rejected
  have "get_transactions (snd (post_transactions memory_server (Some blank_request) 5 None)) None =
          get_transactions memory_server None"
    by (elim conjE)
  with before
  have b: "get_transactions (snd (post_transactions memory_server (Some blank_request) 5 None)) None =
       \<lparr>status = 200, body = Items Memory []\<rparr>"
    by simp
  from blank a b show ?thesis by (intro conjI)
qed

text \<open>
  C5 (as amended) at stores that already hold records, with the clock reading 30: the server
  with 21 records in its array answers 201 with the record of \<open>"abc123"\<close>, which heads the
  next list; the server with 25 documents answers the request with blanks around the hash
  and the number 5 as wallet address with the document of the trimmed hash and the wallet
  address \<open>"5"\<close>, which heads the next list; an object as wallet address gets the 500 answer.
\<close>

theorem post_valid_txHash_stored_witness:
  "post_transactions busy_memory_server (Some abc_request) 30 None =
     (\<lparr>status = 201, body = Item Memory (abc_record 30)\<rparr>,
      busy_memory_server
        \<lparr>inMemoryTxHistory := inMemoryTxHistory busy_memory_server @ [abc_record 30]\<rparr>)
   \<and> get_transactions (snd (post_transactions busy_memory_server (Some abc_request) 30 None))
        None =
       \<lparr>status = 200,
        body = Items Memory
                 (abc_record 30 # take 19 (rev (inMemoryTxHistory busy_memory_server)))\<rparr>
   \<and> post_transactions stocked_mongo_server (Some numeric_request) 30 None =
       (\<lparr>status = 201, body = Item Mongo (numeric_document 30)\<rparr>,
        stocked_mongo_server
          \<lparr>mongoCollection := mongoCollection stocked_mongo_server @ [numeric_document 30]\<rparr>)
   \<and> get_transactions
        (snd (post_transactions stocked_mongo_server (Some numeric_request) 30 None)) None =
       \<lparr>status = 200,
        body = Items Mongo
                 (numeric_document 30
                  # find_sort_limit 19 (mongoCollection stocked_mongo_server))\<rparr>
   \<and> post_transactions stocked_mongo_server
        (Some (numeric_request\<lparr>req_walletAddress := JObject\<rparr>)) 30 None =
       (\<lparr>status = 500, body = Failure ''Failed to save transaction.''\<rparr>,
        stocked_mongo_server)"
proof -
  have hash: "req_txHash abc_request = JString ''abc123''" by (simp add: abc_request_def)
  have filled: "trim ''abc123'' \<noteq> []" by code_simp
  have stored: "abc_record 30 =
           \<lparr>rec_txHash = trim ''abc123'',
            rec_walletAddress =
              (if truthy (req_walletAddress abc_request) then req_walletAddress abc_request
               else JString []),
            rec_network =
              (if truthy (req_network abc_request) then req_network abc_request
               else JString ''preprod''),
            createdAt = 30\<rparr>"
    by code_simp
  have memory: "\<not> mongoConnected busy_memory_server"
    by (simp add: busy_memory_server_def)
  note in_memory =
    post_valid_txHash_stored [OF hash filled stored, of busy_memory_server None None]
  from in_memory have "\<not> mongoConnected busy_memory_server \<longrightarrow>
            post_transactions busy_memory_server (Some abc_request) 30 None =
              (\<lparr>status = 201, body = Item Memory (abc_record 30)\<rparr>,
               busy_memory_server
                 \<lparr>inMemoryTxHistory := inMemoryTxHistory busy_memory_server @ [abc_record 30]\<rparr>)
            \<and> get_transactions
                 (snd (post_transactions busy_memory_server (Some abc_request) 30 None)) None =
                \<lparr>status = 200,
                 body = Items Memory
                   (abc_record 30 # take 19 (rev (inMemoryTxHistory busy_memory_server)))\<rparr>"
    by (rule conjunct1)
  with memory have a: "post_transactions busy_memory_server (Some abc_request) 30 None =
              (\<lparr>status = 201, body = Item Memory (abc_record 30)\<rparr>,
               busy_memory_server
                 \<lparr>inMemoryTxHistory := inMemoryTxHistory busy_memory_server @ [abc_record 30]\<rparr>)
            \<and> get_transactions
                 (snd (post_transactions busy_memory_server (Some abc_request) 30 None)) None =
                \<lparr>status = 200,
                 body = Items Memory
                   (abc_record 30 # take 19 (rev (inMemoryTxHistory busy_memory_server)))\<rparr>"
    by (rule rev_mp)
  let ?built = "\<lparr>rec_txHash = trim '' abc123 '',
            rec_walletAddress =
              (if truthy (req_walletAddress numeric_request) then req_walletAddress numeric_request
               else JString []),
            rec_network =
              (if truthy (req_network numeric_request) then req_network numeric_request
               else JString ''preprod''),
            createdAt = 30\<rparr>"
  have hash5: "req_txHash numeric_request = JString '' abc123 ''"
    by (simp add: numeric_request_def)
  have filled5: "trim '' abc123 '' \<noteq> []" by code_simp
  have trimmed: "trim '' abc123 '' = ''abc123''" by code_simp
  have wallet5: "castString (rec_walletAddress ?built) = Some (JString ''5'')" by code_simp
  have network5: "castString (rec_network ?built) = Some (JString ''preprod'')" by code_simp
  have healthy: "mongoConnected stocked_mongo_server \<and> (None :: js_error option) = None
           \<and> req_walletAddress numeric_request \<noteq> JObject
           \<and> req_network numeric_request \<noteq> JObject"
    by (simp add: stocked_mongo_server_def numeric_request_def)
  have older: "\<forall>d\<in>set (mongoCollection stocked_mongo_server). createdAt d < 30"
    by (auto simp: stocked_mongo_server_def abc_record_def)
  note in_mongo =
    post_valid_txHash_stored
      [where now = 30 and st = stocked_mongo_server and fault = None and fault' = None,
       OF hash5 filled5 refl]
  from in_mongo have "mongoConnected stocked_mongo_server \<and> (None :: js_error option) = None
           \<and> req_walletAddress numeric_request \<noteq> JObject
           \<and> req_network numeric_request \<noteq> JObject \<longrightarrow>
            (\<exists>created.
               post_transactions stocked_mongo_server (Some numeric_request) 30 None =
                 (\<lparr>status = 201, body = Item Mongo created\<rparr>,
                  stocked_mongo_server
                    \<lparr>mongoCollection := mongoCollection stocked_mongo_server @ [created]\<rparr>)
               \<and> rec_txHash created = trim '' abc123 '' \<and> createdAt created = 30
               \<and> castString (rec_walletAddress ?built) = Some (rec_walletAddress created)
               \<and> castString (rec_network ?built) = Some (rec_network created)
               \<and> ((\<forall>d\<in>set (mongoCollection stocked_mongo_server). createdAt d < 30) \<longrightarrow>
                    get_transactions
                      (snd (post_transactions stocked_mongo_server (Some numeric_request) 30 None))
                      None =
                      \<lparr>status = 200,
                       body = Items Mongo
                         (created # find_sort_limit 19 (mongoCollection stocked_mongo_server))\<rparr>))"
    by (elim conjE)
  with healthy obtain created where
    post: "post_transactions stocked_mongo_server (Some numeric_request) 30 None =
                 (\<lparr>status = 201, body = Item Mongo created\<rparr>,
                  stocked_mongo_server
                    \<lparr>mongoCollection := mongoCollection stocked_mongo_server @ [created]\<rparr>)"
    and f1: "rec_txHash created = trim '' abc123 ''" and f2: "createdAt created = 30"
    and f3: "castString (rec_walletAddress ?built) = Some (rec_walletAddress created)"
    and f4: "castString (rec_network ?built) = Some (rec_network created)"
    and first: "(\<forall>d\<in>set (mongoCollection stocked_mongo_server). createdAt d < 30) \<longrightarrow>
                    get_transactions
                      (snd (post_transactions stocked_mongo_server (Some numeric_request) 30 None))
                      None =
                      \<lparr>status = 200,
                       body = Items Mongo
                         (created # find_sort_limit 19 (mongoCollection stocked_mongo_server))\<rparr>"
    by blast
  from f1 trimmed have g1: "rec_txHash created = ''abc123''" by simp
  from f3 wallet5 have g3: "rec_walletAddress created = JString ''5''" by simp
  from f4 network5 have g4: "rec_network created = JString ''preprod''" by simp
  from g1 f2 g3 g4 have created: "created = numeric_document 30"
    by (cases created) (simp add: numeric_document_def)
  from post created
  have b: "post_transactions stocked_mongo_server (Some numeric_request) 30 None =
       (\<lparr>status = 201, body = Item Mongo (numeric_document 30)\<rparr>,
        stocked_mongo_server
          \<lparr>mongoCollection := mongoCollection stocked_mongo_server @ [numeric_document 30]\<rparr>)"
    by simp
  from first older created
  have c: "get_transactions
        (snd (post_transactions stocked_mongo_server (Some numeric_request) 30 None)) None =
       \<lparr>status = 200,
        body = Items Mongo
                 (numeric_document 30
                  # find_sort_limit 19 (mongoCollection stocked_mongo_server))\<rparr>"
    by simp
  have hash6: "req_txHash (numeric_request\<lparr>req_walletAddress := JObject\<rparr>) = JString '' abc123 ''"
    by (simp add: numeric_request_def)
  have object: "mongoConnected stocked_mongo_server
           \<and> ((None :: js_error option) \<noteq> None
               \<or> req_walletAddress (numeric_request\<lparr>req_walletAddress := JObject\<rparr>) = JObject
               \<or> req_network (numeric_request\<lparr>req_walletAddress := JObject\<rparr>) = JObject)"
    by (simp add: stocked_mongo_server_def)
  note refused =
    post_valid_txHash_stored
      [where now = 30 and st = stocked_mongo_server and fault = None and fault' = None,
       OF hash6 filled5 refl]
  from refused have "mongoConnected stocked_mongo_server
           \<and> ((None :: js_error option) \<noteq> None
               \<or> req_walletAddress (numeric_request\<lparr>req_walletAddress := JObject\<rparr>) = JObject
               \<or> req_network (numeric_request\<lparr>req_walletAddress := JObject\<rparr>) = JObject) \<longrightarrow>
            post_transactions stocked_mongo_server
              (Some (numeric_request\<lparr>req_walletAddress := JObject\<rparr>)) 30 None =
              (\<lparr>status = 500, body = Failure ''Failed to save transaction.''\<rparr>,
               stocked_mongo_server)"
    by (elim conjE)
  with object have d: "post_transactions stocked_mongo_server
              (Some (numeric_request\<lparr>req_walletAddress := JObject\<rparr>)) 30 None =
              (\<lparr>status = 500, body = Failure ''Failed to save transaction.''\<rparr>,
               stocked_mongo_server)"
    by (rule rev_mp)
  from a have a1: "post_transactions busy_memory_server (Some abc_request) 30 None =
              (\<lparr>status = 201, body = Item Memory (abc_record 30)\<rparr>,
               busy_memory_server
                 \<lparr>inMemoryTxHistory := inMemoryTxHistory busy_memory_server @ [abc_record 30]\<rparr>)"
    by (rule conjunct1)
  from a have a2: "get_transactions
                 (snd (post_transactions busy_memory_server (Some abc_request) 30 None)) None =
                \<lparr>status = 200,
                 body = Items Memory
                   (abc_record 30 # take 19 (rev (inMemoryTxHistory busy_memory_server)))\<rparr>"
    by (rule conjunct2)
  from a1 a2 b c d show ?thesis by (intro conjI)
qed

text \<open>
  C5 as stated fails: with Mongo connected and the store rejecting the insertion, the
  valid hash \<open>"abc123"\<close> is answered with 500, not 201.
\<close>

theorem post_valid_store_fault_counterexample:
  "fst (post_transactions mongo_server (Some abc_request) 7 (Some store_down)) =
     \<lparr>status = 500, body = Failure ''Failed to save transaction.''\<rparr>"
  by code_simp

text \<open>
  C6 (as amended) at the server with 21 records in its array, at the server with 25
  documents in its collection (20 items each, the newest first: the documents stamped 25
  down to 6), and at the array reached by two create requests at the clock readings 3 and
  10.
\<close>

theorem get_transactions_latest_20_witness:
  "(\<exists>items. body (get_transactions busy_memory_server None) = Items Memory items
          \<and> length items = 20
          \<and> items = take 20 (rev (inMemoryTxHistory busy_memory_server))
          \<and> sorted_wrt (\<lambda>a b. createdAt b \<le> createdAt a) items)
   \<and> (\<exists>items. body (get_transactions stocked_mongo_server None) = Items Mongo items
          \<and> length items = 20
          \<and> sorted_wrt (\<lambda>a b. createdAt b \<le> createdAt a) items
          \<and> map createdAt items = rev [6..<26])
   \<and> reachable_steady
        (snd (post_transactions (snd (post_transactions memory_server (Some abc_request) 3 None))
                (Some abc_request) 10 None))
   \<and> (\<exists>items. body (get_transactions
                 (snd (post_transactions
                         (snd (post_transactions memory_server (Some abc_request) 3 None))
                         (Some abc_request) 10 None)) None) = Items Memory items
          \<and> length items = 2
          \<and> sorted_wrt (\<lambda>a b. createdAt b \<le> createdAt a) items)"
proof -
  let ?mem = "take 20 (rev (inMemoryTxHistory busy_memory_server))"
  have "map createdAt (inMemoryTxHistory busy_memory_server) = [1..<22]"
    by (simp add: busy_memory_server_def abc_record_def comp_def)
  then have clock: "sorted (map createdAt (inMemoryTxHistory busy_memory_server))"
    by simp
  have many: "length (inMemoryTxHistory busy_memory_server) = 21"
    by (simp add: busy_memory_server_def)
  have "\<not> mongoConnected busy_memory_server" by (simp add: busy_memory_server_def)
  then have served: "body (get_transactions busy_memory_server None) = Items Memory ?mem"
    by (simp add: get_transactions_def rev_slice_last)
  from get_transactions_latest_20 [of busy_memory_server None] clock many
  have "length ?mem = 20 \<and> sorted_wrt (\<lambda>a b. createdAt b \<le> createdAt a) ?mem"
    unfolding served by simp
  with served have a: "\<exists>items. body (get_transactions busy_memory_server None) = Items Memory items
          \<and> length items = 20
          \<and> items = take 20 (rev (inMemoryTxHistory busy_memory_server))
          \<and> sorted_wrt (\<lambda>a b. createdAt b \<le> createdAt a) items"
    by (intro exI [of _ ?mem] conjI) simp_all
  let ?docs = "find_sort_limit 20 (mongoCollection stocked_mongo_server)"
  have stock: "length (mongoCollection stocked_mongo_server) = 25"
    by (simp add: stocked_mongo_server_def)
  have "mongoConnected stocked_mongo_server" by (simp add: stocked_mongo_server_def)
  then have listed: "body (get_transactions stocked_mongo_server None) = Items Mongo ?docs"
    by (simp add: get_transactions_def)
  have stamps: "map createdAt ?docs = rev [6..<26]" by code_simp
  from get_transactions_latest_20 [of stocked_mongo_server None] stock
  have "length ?docs = 20 \<and> sorted_wrt (\<lambda>a b. createdAt b \<le> createdAt a) ?docs"
    unfolding listed by simp
  with listed stamps
  have b: "\<exists>items. body (get_transactions stocked_mongo_server None) = Items Mongo items
          \<and> length items = 20
          \<and> sorted_wrt (\<lambda>a b. createdAt b \<le> createdAt a) items
          \<and> map createdAt items = rev [6..<26]"
    by (intro exI [of _ ?docs] conjI) simp_all
  let ?one = "snd (post_transactions memory_server (Some abc_request) 3 None)"
  let ?two = "snd (post_transactions ?one (Some abc_request) 10 None)"
  have "reachable_steady memory_server"
    unfolding memory_server_def by (rule reachable_steady.loaded)
  moreover have "\<forall>r\<in>set (inMemoryTxHistory memory_server). createdAt r \<le> 3"
    by (simp add: memory_server_def module_loaded_def)
  ultimately have one: "reachable_steady ?one" by (rule reachable_steady.posted)
  have array_one: "inMemoryTxHistory ?one = [abc_record 3]" by code_simp
  then have "\<forall>r\<in>set (inMemoryTxHistory ?one). createdAt r \<le> 10"
    by (simp add: abc_record_def)
  with one have steady: "reachable_steady ?two" by (rule reachable_steady.posted)
  have array_two: "inMemoryTxHistory ?two = [abc_record 3, abc_record 10]" by code_simp
  have no_mongo: "\<not> mongoConnected ?two" by code_simp
  let ?pair = "take 20 (rev (inMemoryTxHistory ?two))"
  from no_mongo have answered: "body (get_transactions ?two None) = Items Memory ?pair"
    by (simp add: get_transactions_def rev_slice_last)
  from get_transactions_latest_20 [of ?two None] steady
  have "sorted_wrt (\<lambda>a b. createdAt b \<le> createdAt a) ?pair"
    unfolding answered by simp
  moreover have "length ?pair = 2" by (simp add: array_two)
  ultimately
  have c: "\<exists>items. body (get_transactions ?two None) = Items Memory items
          \<and> length items = 2
          \<and> sorted_wrt (\<lambda>a b. createdAt b \<le> createdAt a) items"
    using answered by (intro exI [of _ ?pair] conjI)
  from a b steady c show ?thesis by (intro conjI)
qed

text \<open>
  C6 as stated fails: after a create request stamped 10 and a create request stamped 3 (the
  clock was set back in between), the list is in the order of insertion, the record stamped
  3 before the record stamped 10, which is not by descending \<open>createdAt\<close>.
\<close>

theorem get_transactions_stamps_counterexample:
  "body (get_transactions
           (snd (post_transactions
                   (snd (post_transactions memory_server (Some abc_request) 10 None))
                   (Some abc_request) 3 None)) None) =
     Items Memory [abc_record 3, abc_record 10]
   \<and> \<not> sorted_wrt (\<lambda>a b. createdAt b \<le> createdAt a) [abc_record 3, abc_record 10]"
proof -
  have "body (get_transactions
           (snd (post_transactions
                   (snd (post_transactions memory_server (Some abc_request) 10 None))
                   (Some abc_request) 3 None)) None) =
     Items Memory [abc_record 3, abc_record 10]"
    by code_simp
  moreover have "\<not> sorted_wrt (\<lambda>a b. createdAt b \<le> createdAt a) [abc_record 3, abc_record 10]"
    by (simp add: abc_record_def)
  ultimately show ?thesis by (intro conjI)
qed

text \<open>
  C7 (as amended) at the store that cannot be reached: with Mongo connected both requests
  get the 500 answer and the state stays; after a failed connection at startup the flag is
  false; without Mongo both requests are served from the array.
\<close>

theorem store_fault_reported_witness:
  "get_transactions mongo_server (Some store_down) =
     \<lparr>status = 500, body = Failure ''Failed to fetch transaction history.''\<rparr>
   \<and> post_transactions mongo_server (Some abc_request) 7 (Some store_down) =
       (\<lparr>status = 500, body = Failure ''Failed to save transaction.''\<rparr>, mongo_server)
   \<and> \<not> mongoConnected
         (connect_settled ''mongodb://127.0.0.1:27017/cardano_dapp'' (Inl store_down)
            (module_loaded []))
   \<and> get_transactions memory_server (Some store_down) =
       \<lparr>status = 200, body = Items Memory (take 20 (rev (inMemoryTxHistory memory_server)))\<rparr>
   \<and> status (fst (post_transactions memory_server (Some abc_request) 7 (Some store_down))) = 201"
proof -
  have mongo: "mongoConnected mongo_server \<and> Some store_down = Some store_down"
    by (simp add: mongo_server_def module_loaded_def connect_settled_def)
  have valid: "\<not> spec_txHash_rejected (Some abc_request)" by code_simp
  have memory: "\<not> mongoConnected memory_server"
    by (simp add: memory_server_def module_loaded_def)
  note at_mongo = store_fault_reported
    [of mongo_server "Some store_down" store_down "Some abc_request" 7
        "''mongodb://127.0.0.1:27017/cardano_dapp''" "[]"]
  note at_memory = store_fault_reported
    [of memory_server "Some store_down" store_down "Some abc_request" 7
        "''mongodb://127.0.0.1:27017/cardano_dapp''" "[]"]
  from at_mongo have "mongoConnected mongo_server \<and> Some store_down = Some store_down \<longrightarrow>
       get_transactions mongo_server (Some store_down) =
         \<lparr>status = 500, body = Failure ''Failed to fetch transaction history.''\<rparr>
       \<and> (\<not> spec_txHash_rejected (Some abc_request) \<longrightarrow>
            post_transactions mongo_server (Some abc_request) 7 (Some store_down) =
              (\<lparr>status = 500, body = Failure ''Failed to save transaction.''\<rparr>, mongo_server))"
    by (rule conjunct1)
  with mongo have "get_transactions mongo_server (Some store_down) =
         \<lparr>status = 500, body = Failure ''Failed to fetch transaction history.''\<rparr>
       \<and> (\<not> spec_txHash_rejected (Some abc_request) \<longrightarrow>
            post_transactions mongo_server (Some abc_request) 7 (Some store_down) =
              (\<lparr>status = 500, body = Failure ''Failed to save transaction.''\<rparr>, mongo_server))"
    by (rule rev_mp)
  with valid have a: "get_transactions mongo_server (Some store_down) =
         \<lparr>status = 500, body = Failure ''Failed to fetch transaction history.''\<rparr>"
    and b: "post_transactions mongo_server (Some abc_request) 7 (Some store_down) =
              (\<lparr>status = 500, body = Failure ''Failed to save transaction.''\<rparr>, mongo_server)"
    by simp_all
  from at_mongo have c: "\<not> mongoConnected
         (connect_settled ''mongodb://127.0.0.1:27017/cardano_dapp'' (Inl store_down)
            (module_loaded []))"
    by (elim conjE)
  from at_memory have "\<not> mongoConnected memory_server \<longrightarrow>
        get_transactions memory_server (Some store_down) =
          \<lparr>status = 200, body = Items Memory (take 20 (rev (inMemoryTxHistory memory_server)))\<rparr>
        \<and> (\<not> spec_txHash_rejected (Some abc_request) \<longrightarrow>
             status (fst (post_transactions memory_server (Some abc_request) 7 (Some store_down))) = 201
             \<and> (\<exists>r. body (fst (post_transactions memory_server (Some abc_request) 7 (Some store_down))) = Item Memory r))"
    by (elim conjE)
  with memory have "get_transactions memory_server (Some store_down) =
          \<lparr>status = 200, body = Items Memory (take 20 (rev (inMemoryTxHistory memory_server)))\<rparr>
        \<and> (\<not> spec_txHash_rejected (Some abc_request) \<longrightarrow>
             status (fst (post_transactions memory_server (Some abc_request) 7 (Some store_down))) = 201
             \<and> (\<exists>r. body (fst (post_transactions memory_server (Some abc_request) 7 (Some store_down))) = Item Memory r))"
    by (rule rev_mp)
  with valid have d: "get_transactions memory_server (Some store_down) =
          \<lparr>status = 200, body = Items Memory (take 20 (rev (inMemoryTxHistory memory_server)))\<rparr>"
    and e: "status (fst (post_transactions memory_server (Some abc_request) 7 (Some store_down))) = 201"
    by simp_all
  from a b c d e show ?thesis by (intro conjI)
qed

text \<open>
  C7 as stated fails: a server that holds the record of \<open>"abc123"\<close> in its array and whose
  connection was then established answers a list request with 500 when the store cannot be
  reached at call time; it does not serve the array.
\<close>

theorem store_fault_no_fallback_counterexample:
  "inMemoryTxHistory
     (connect_settled ''mongodb://127.0.0.1:27017/cardano_dapp'' (Inr ())
        (snd (post_transactions memory_server (Some abc_request) 7 None))) = [abc_record 7]
   \<and> get_transactions
       (connect_settled ''mongodb://127.0.0.1:27017/cardano_dapp'' (Inr ())
          (snd (post_transactions memory_server (Some abc_request) 7 None)))
       (Some store_down) =
     \<lparr>status = 500, body = Failure ''Failed to fetch transaction history.''\<rparr>"
  by code_simp

end
